theory Spec2Isabelle
  imports Main
begin

section \<open>JavaScript values that reach the routes\<close>

text \<open>
  The request bodies of \<^verbatim>\<open>server.ts\<close> are typed by the interfaces \<^verbatim>\<open>AnnotationBody\<close> and
  \<^verbatim>\<open>DeleteAnnotationBody\<close>: identifiers are of type \<^verbatim>\<open>number\<close>, the label name is a
  \<^verbatim>\<open>string\<close>. A number is modelled at its integer values, together with \<^verbatim>\<open>NaN\<close> (the
  result of \<^verbatim>\<open>parseInt\<close> on a path parameter without digits). A string is a list of
  characters and \<^verbatim>\<open>.length\<close> is the length of that list.
\<close>

datatype js_number = NaN | Num int

text \<open>\<^verbatim>\<open>!x\<close> for a number: \<^verbatim>\<open>NaN\<close> and \<^verbatim>\<open>0\<close> are the falsy numbers.\<close>

fun falsy :: "js_number \<Rightarrow> bool" where
  "falsy NaN = True"
| "falsy (Num n) = (n = 0)"

fun isNaN :: "js_number \<Rightarrow> bool" where
  "isNaN NaN = True"
| "isNaN (Num n) = False"

text \<open>Decimal rendering of a number, as a template literal or \<^verbatim>\<open>GROUP_CONCAT\<close> prints it.\<close>

definition digit_char :: "nat \<Rightarrow> char" where
  "digit_char n = ''0123456789'' ! (n mod 10)"

function digits_of :: "nat \<Rightarrow> string" where
  "digits_of n = (if n < 10 then [digit_char n] else digits_of (n div 10) @ [digit_char n])"
  by pat_completeness auto
termination
  by (relation "measure (\<lambda>n. n)") auto

declare digits_of.simps [simp del]

definition show_int :: "int \<Rightarrow> string" where
  "show_int i = (if i < 0 then CHR ''-'' # digits_of (nat (- i)) else digits_of (nat i))"

text \<open>
  \<^verbatim>\<open>String.prototype.split\<close> with a non-empty separator string: the text is cut at every
  occurrence of the separator, scanning from the left; a text without the separator is
  returned as the only element. The accumulator \<open>acc\<close> holds the piece being read.
\<close>

function split_from :: "string \<Rightarrow> string \<Rightarrow> string \<Rightarrow> string list" where
  "split_from sep acc [] = [acc]"
| "split_from sep acc (c # cs) =
     (if sep \<noteq> [] \<and> take (length sep) (c # cs) = sep
      then acc # split_from sep [] (drop (length sep) (c # cs))
      else split_from sep (acc @ [c]) cs)"
  by pat_completeness auto
termination
  by (relation "measure (\<lambda>(sep, acc, s). length s)") auto

definition split_on :: "string \<Rightarrow> string \<Rightarrow> string list" where
  "split_on sep s = split_from sep [] s"

section \<open>The SQLite store of db.ts\<close>

text \<open>
  The three tables of \<^verbatim>\<open>db.ts\<close>. A row of \<^verbatim>\<open>images\<close> carries \<^verbatim>\<open>id\<close>, \<^verbatim>\<open>filename\<close> and
  \<^verbatim>\<open>file_path\<close>; the column \<^verbatim>\<open>upload_time\<close> is filled by the store and read by no route. A row
  of \<^verbatim>\<open>annotations\<close> is the pair of its two payload columns; its surrogate key \<^verbatim>\<open>id\<close> is read
  by no route. The field names follow the aliases \<^verbatim>\<open>i\<close>, \<^verbatim>\<open>l\<close> and \<^verbatim>\<open>a\<close> of the listing query.
\<close>

record image_row =
  i_id :: int
  i_filename :: string
  i_file_path :: string

record label_row =
  l_id :: int
  l_name :: string

record annotation_row =
  a_image_id :: int
  a_label_id :: int

text \<open>
  The connection with its tables in rowid order. \<open>images_seq\<close> and \<open>labels_seq\<close> are the
  \<^verbatim>\<open>AUTOINCREMENT\<close> counters: the largest rowid the table has ever held. \<open>foreign_keys\<close> is the
  connection's \<^verbatim>\<open>PRAGMA foreign_keys\<close> setting: SQLite checks the \<^verbatim>\<open>FOREIGN KEY\<close> clauses of
  the schema, and runs their \<^verbatim>\<open>ON DELETE CASCADE\<close> actions, only on a connection where the
  setting is on.
\<close>

record database =
  foreign_keys :: bool
  images :: "image_row list"
  images_seq :: int
  labels :: "label_row list"
  labels_seq :: int
  annotations :: "annotation_row list"

datatype sqlite_error = Unique_failed string | Foreign_key_failed

fun message :: "sqlite_error \<Rightarrow> string" where
  "message (Unique_failed col) = ''SQLITE_CONSTRAINT: UNIQUE constraint failed: '' @ col"
| "message Foreign_key_failed = ''SQLITE_CONSTRAINT: FOREIGN KEY constraint failed''"

text \<open>
  \<^verbatim>\<open>new sqlite3.Database(...)\<close> on a fresh file: no table has a row, and the connection has
  the default setting of \<^verbatim>\<open>foreign_keys\<close>, which is off. Neither \<^verbatim>\<open>db.ts\<close> nor
  \<^verbatim>\<open>server.ts\<close> issues \<^verbatim>\<open>PRAGMA foreign_keys = ON\<close>.
\<close>

definition sqlite_open :: database where
  "sqlite_open = \<lparr>foreign_keys = False, images = [], images_seq = 0,
                   labels = [], labels_seq = 0, annotations = []\<rparr>"

text \<open>\<^verbatim>\<open>INSERT OR IGNORE INTO labels (name) VALUES (?)\<close>: a taken name is skipped.\<close>

definition insert_or_ignore_label :: "database \<Rightarrow> string \<Rightarrow> database" where
  "insert_or_ignore_label d name =
     (if name \<in> set (map l_name (labels d)) then d
      else d\<lparr>labels := labels d @ [\<lparr>l_id = labels_seq d + 1, l_name = name\<rparr>],
              labels_seq := labels_seq d + 1\<rparr>)"

text \<open>The \<^verbatim>\<open>db.serialize\<close> block of \<^verbatim>\<open>db.ts\<close>: the tables, then the three default labels.\<close>

definition db_init :: database where
  "db_init = foldl insert_or_ignore_label sqlite_open [''cat'', ''dog'', ''car'']"

text \<open>\<^verbatim>\<open>SELECT id FROM labels WHERE name = ?\<close> through \<^verbatim>\<open>db.get\<close>: the first matching row.\<close>

definition select_label_id :: "database \<Rightarrow> string \<Rightarrow> sqlite_error + int option" where
  "select_label_id d name = Inr (map_option l_id (find (\<lambda>l. l_name l = name) (labels d)))"

text \<open>
  Whether an \<^verbatim>\<open>annotations\<close> row with these ids violates a \<^verbatim>\<open>FOREIGN KEY\<close> clause that the
  connection enforces.
\<close>

definition fk_violation :: "database \<Rightarrow> int \<Rightarrow> int \<Rightarrow> bool" where
  "fk_violation d image_id label_id =
     (foreign_keys d \<and>
      \<not> (image_id \<in> set (map i_id (images d)) \<and> label_id \<in> set (map l_id (labels d))))"

text \<open>
  \<^verbatim>\<open>INSERT OR IGNORE INTO annotations (image_id, label_id) VALUES (?, ?)\<close>: a pair that is
  already stored is skipped (\<^verbatim>\<open>UNIQUE(image_id, label_id)\<close>); \<^verbatim>\<open>OR IGNORE\<close> does not cover a
  foreign-key violation.
\<close>

definition insert_or_ignore_annotation :: "database \<Rightarrow> int \<Rightarrow> int \<Rightarrow> sqlite_error + database" where
  "insert_or_ignore_annotation d image_id label_id =
     (if fk_violation d image_id label_id then Inl Foreign_key_failed
      else if \<lparr>a_image_id = image_id, a_label_id = label_id\<rparr> \<in> set (annotations d) then Inr d
      else Inr (d\<lparr>annotations := annotations d @ [\<lparr>a_image_id = image_id, a_label_id = label_id\<rparr>]\<rparr>))"

text \<open>\<^verbatim>\<open>INSERT INTO labels (name) VALUES (?)\<close>, returning the store and \<^verbatim>\<open>this.lastID\<close>.\<close>

definition insert_label :: "database \<Rightarrow> string \<Rightarrow> sqlite_error + database \<times> int" where
  "insert_label d name =
     (if name \<in> set (map l_name (labels d)) then Inl (Unique_failed ''labels.name'')
      else Inr (d\<lparr>labels := labels d @ [\<lparr>l_id = labels_seq d + 1, l_name = name\<rparr>],
                  labels_seq := labels_seq d + 1\<rparr>, labels_seq d + 1))"

text \<open>\<^verbatim>\<open>INSERT INTO annotations (image_id, label_id) VALUES (?, ?)\<close>.\<close>

definition insert_annotation :: "database \<Rightarrow> int \<Rightarrow> int \<Rightarrow> sqlite_error + database" where
  "insert_annotation d image_id label_id =
     (if fk_violation d image_id label_id then Inl Foreign_key_failed
      else if \<lparr>a_image_id = image_id, a_label_id = label_id\<rparr> \<in> set (annotations d)
      then Inl (Unique_failed ''annotations.image_id, annotations.label_id'')
      else Inr (d\<lparr>annotations := annotations d @ [\<lparr>a_image_id = image_id, a_label_id = label_id\<rparr>]\<rparr>))"

text \<open>\<^verbatim>\<open>INSERT INTO images (filename, file_path) VALUES (?, ?)\<close>, with \<^verbatim>\<open>this.lastID\<close>.\<close>

definition insert_image :: "database \<Rightarrow> string \<Rightarrow> string \<Rightarrow> sqlite_error + database \<times> int" where
  "insert_image d filename file_path =
     (if filename \<in> set (map i_filename (images d)) then Inl (Unique_failed ''images.filename'')
      else Inr (d\<lparr>images := images d @
                     [\<lparr>i_id = images_seq d + 1, i_filename = filename, i_file_path = file_path\<rparr>],
                  images_seq := images_seq d + 1\<rparr>, images_seq d + 1))"

text \<open>\<^verbatim>\<open>SELECT file_path FROM images WHERE id = ?\<close> through \<^verbatim>\<open>db.get\<close>.\<close>

definition select_file_path :: "database \<Rightarrow> int \<Rightarrow> sqlite_error + string option" where
  "select_file_path d image_id =
     Inr (map_option i_file_path (find (\<lambda>i. i_id i = image_id) (images d)))"

text \<open>\<^verbatim>\<open>DELETE FROM annotations WHERE image_id = ?\<close>.\<close>

definition delete_annotations_of_image :: "database \<Rightarrow> int \<Rightarrow> sqlite_error + database" where
  "delete_annotations_of_image d image_id =
     Inr (d\<lparr>annotations := filter (\<lambda>a. a_image_id a \<noteq> image_id) (annotations d)\<rparr>)"

text \<open>
  \<^verbatim>\<open>DELETE FROM images WHERE id = ?\<close>. Where the connection enforces foreign keys, the
  \<^verbatim>\<open>ON DELETE CASCADE\<close> action removes the annotations of a deleted image.
\<close>

definition delete_image_row :: "database \<Rightarrow> int \<Rightarrow> sqlite_error + database" where
  "delete_image_row d image_id =
     Inr (d\<lparr>images := filter (\<lambda>i. i_id i \<noteq> image_id) (images d),
            annotations :=
              (if foreign_keys d \<and> image_id \<in> set (map i_id (images d))
               then filter (\<lambda>a. a_image_id a \<noteq> image_id) (annotations d)
               else annotations d)\<rparr>)"

text \<open>\<^verbatim>\<open>DELETE FROM annotations WHERE image_id = ? AND label_id = ?\<close>.\<close>

definition delete_annotation :: "database \<Rightarrow> int \<Rightarrow> int \<Rightarrow> sqlite_error + database" where
  "delete_annotation d image_id label_id =
     Inr (d\<lparr>annotations :=
              filter (\<lambda>a. \<not> (a_image_id a = image_id \<and> a_label_id a = label_id)) (annotations d)\<rparr>)"

text \<open>
  The listing query of \<^verbatim>\<open>GET /api/images\<close>:
  \<^verbatim>\<open>SELECT i.id, i.filename, i.file_path, GROUP_CONCAT(l.name, ', ') as labels,
  GROUP_CONCAT(l.id, ', ') as labelIds FROM images i LEFT JOIN annotations a ON i.id = a.image_id
  LEFT JOIN labels l ON a.label_id = l.id GROUP BY i.id\<close>.
  \<open>joined_labels\<close> is the \<open>l\<close> side of the joined rows of one image, \<open>None\<close> where the left
  join found no partner; both aggregates read these rows in the same order. The query has
  no \<^verbatim>\<open>ORDER BY\<close>: SQLite serves the join on \<^verbatim>\<open>a.image_id\<close> from the index of
  \<^verbatim>\<open>UNIQUE(image_id, label_id)\<close>, so the annotations of an image come in the order of their
  label ids.
  \<^verbatim>\<open>GROUP_CONCAT\<close> skips \<^verbatim>\<open>NULL\<close> and is \<^verbatim>\<open>NULL\<close> when nothing is left. \<^verbatim>\<open>images.id\<close> is the
  primary key, so every image row is a group of its own.
\<close>

record image_with_labels =
  r_id :: int
  r_filename :: string
  r_file_path :: string
  r_labels :: "string option"
  r_labelIds :: "string option"

fun non_null :: "'a option list \<Rightarrow> 'a list" where
  "non_null [] = []"
| "non_null (None # xs) = non_null xs"
| "non_null (Some x # xs) = x # non_null xs"

fun join_with :: "string \<Rightarrow> string list \<Rightarrow> string" where
  "join_with sep [] = []"
| "join_with sep [x] = x"
| "join_with sep (x # y # ys) = x @ sep @ join_with sep (y # ys)"

definition group_concat :: "string \<Rightarrow> string option list \<Rightarrow> string option" where
  "group_concat sep vs = (case non_null vs of [] \<Rightarrow> None | x # xs \<Rightarrow> Some (join_with sep (x # xs)))"

definition joined_labels :: "database \<Rightarrow> image_row \<Rightarrow> label_row option list" where
  "joined_labels d i =
     (case sort_key a_label_id (filter (\<lambda>a. a_image_id a = i_id i) (annotations d)) of
        [] \<Rightarrow> [None]
      | a # as \<Rightarrow>
          concat (map (\<lambda>a. case filter (\<lambda>l. l_id l = a_label_id a) (labels d) of
                              [] \<Rightarrow> [None]
                            | l # ls \<Rightarrow> map Some (l # ls))
                      (a # as)))"

definition select_images_with_labels :: "database \<Rightarrow> sqlite_error + image_with_labels list" where
  "select_images_with_labels d =
     Inr (map (\<lambda>i. \<lparr>r_id = i_id i, r_filename = i_filename i, r_file_path = i_file_path i,
                     r_labels = group_concat '', '' (map (map_option l_name) (joined_labels d i)),
                     r_labelIds =
                       group_concat '', '' (map (map_option (\<lambda>l. show_int (l_id l))) (joined_labels d i))\<rparr>)
              (images d))"

section \<open>The server of server.ts\<close>

text \<open>
  What a request can change: the store, the regular files on disk (path to contents), and
  the lines written by \<^verbatim>\<open>console.error\<close>. \<open>dirname\<close> is \<^verbatim>\<open>__dirname\<close>.
\<close>

record server =
  db :: database
  files :: "string \<rightharpoonup> string"
  console :: "string list"
  dirname :: string

datatype json_body =
    Json_error string
  | Json_success string
  | Json_created int string
  | Json_rows "image_with_labels list"

text \<open>
  A response is a status with a JSON body (\<^verbatim>\<open>res.json\<close> alone answers 200). \<open>Next_error\<close>
  is an upload that multer refused: the error goes to Express and the route handler does
  not run.
\<close>

datatype response = Response nat json_body | Next_error string

definition start_server :: "string \<Rightarrow> server" where
  "start_server dir = \<lparr>db = db_init, files = Map.empty, console = [], dirname = dir\<rparr>"

subsection \<open>POST /api/images\<close>

record upload_file =
  originalname :: string
  mimetype :: string
  content :: string

definition path_join :: "string \<Rightarrow> string \<Rightarrow> string" where
  "path_join dir name = dir @ ''/'' @ name"

text \<open>The \<^verbatim>\<open>filename\<close> function of the disk storage; \<open>now\<close> is the value of \<^verbatim>\<open>Date.now()\<close>.\<close>

definition filename :: "nat \<Rightarrow> upload_file \<Rightarrow> string" where
  "filename now file =
     (let fileExt = last (split_on ''.'' (originalname file))
      in ''image-'' @ digits_of now @ ''.'' @ fileExt)"

definition fileFilter :: "upload_file \<Rightarrow> bool" where
  "fileFilter file = (mimetype file \<in> set [''image/jpeg'', ''image/png'', ''image/jpg''])"

text \<open>
  The route with its multer middleware, for an upload within the size limit. A file that
  passes the filter is written under the generated name before the handler runs, replacing
  what was stored under that path; the handler then inserts the row.
\<close>

definition post_api_images :: "server \<Rightarrow> nat \<Rightarrow> upload_file option \<Rightarrow> server \<times> response" where
  "post_api_images s now req_file =
     (case req_file of
        None \<Rightarrow> (s, Response 400 (Json_error ''No image file uploaded!''))
      | Some file \<Rightarrow>
          if \<not> fileFilter file then (s, Next_error ''Only JPG/PNG image files are allowed!'')
          else
            (let uniqueName = filename now file;
                 filePath = path_join (path_join (dirname s) ''uploads'') uniqueName;
                 s1 = s\<lparr>files := (files s)(filePath \<mapsto> content file)\<rparr>
             in (case insert_image (db s1) uniqueName filePath of
                   Inl err \<Rightarrow> (s1, Response 400 (Json_error (message err)))
                 | Inr (d, lastID) \<Rightarrow>
                     (s1\<lparr>db := d\<rparr>, Response 201 (Json_created lastID uniqueName)))))"

subsection \<open>POST /api/annotations\<close>

definition post_api_annotations :: "server \<Rightarrow> js_number \<Rightarrow> string \<Rightarrow> server \<times> response" where
  "post_api_annotations s imageId labelName =
     (case imageId of
        NaN \<Rightarrow> (s, Response 400 (Json_error ''Image ID and label name are required!''))
      | Num image_id \<Rightarrow>
          if falsy imageId \<or> labelName = []
          then (s, Response 400 (Json_error ''Image ID and label name are required!''))
          else if length labelName > 50
          then (s, Response 400 (Json_error ''Label name cannot exceed 50 characters!''))
          else
            (case select_label_id (db s) labelName of
              Inl err \<Rightarrow> (s, Response 400 (Json_error (message err)))
            | Inr (Some label_id) \<Rightarrow>
                (case insert_or_ignore_annotation (db s) image_id label_id of
                   Inl err \<Rightarrow> (s, Response 400 (Json_error (message err)))
                 | Inr d \<Rightarrow>
                     (s\<lparr>db := d\<rparr>,
                      Response 200 (Json_success ''Label added (or already linked to the image)!'')))
            | Inr None \<Rightarrow>
                (case insert_label (db s) labelName of
                   Inl err \<Rightarrow> (s, Response 400 (Json_error (message err)))
                 | Inr (d, lastID) \<Rightarrow>
                     (case insert_annotation d image_id lastID of
                        Inl err \<Rightarrow> (s\<lparr>db := d\<rparr>, Response 400 (Json_error (message err)))
                      | Inr d' \<Rightarrow>
                          (s\<lparr>db := d'\<rparr>,
                           Response 200 (Json_success ''New label created and linked to the image!''))))))"

subsection \<open>GET /api/images\<close>

definition get_api_images :: "server \<Rightarrow> server \<times> response" where
  "get_api_images s =
     (case select_images_with_labels (db s) of
        Inl err \<Rightarrow> (s, Response 400 (Json_error (message err)))
      | Inr rows \<Rightarrow> (s, Response 200 (Json_rows rows)))"

subsection \<open>DELETE /api/images/:id\<close>

datatype fs_error = ENOENT | EACCES | EBUSY

text \<open>The \<^verbatim>\<open>message\<close> of a failed \<^verbatim>\<open>unlink\<close>; Node puts the path between single quotes.\<close>

definition quoted :: "string \<Rightarrow> string" where
  "quoted path = [CHR 0x27] @ path @ [CHR 0x27]"

fun fs_message :: "fs_error \<Rightarrow> string \<Rightarrow> string" where
  "fs_message ENOENT path = ''ENOENT: no such file or directory, unlink '' @ quoted path"
| "fs_message EACCES path = ''EACCES: permission denied, unlink '' @ quoted path"
| "fs_message EBUSY path = ''EBUSY: resource busy or locked, unlink '' @ quoted path"

text \<open>
  \<^verbatim>\<open>fs.unlink\<close>. \<open>fault\<close> is what the operating system does with the call: \<open>Some e\<close> when it
  refuses with \<open>e\<close> and leaves the disk as it is, \<open>None\<close> when it removes the file if there is
  one. A path without a file fails with \<^verbatim>\<open>ENOENT\<close>.
\<close>

definition unlink :: "(string \<rightharpoonup> string) \<Rightarrow> fs_error option \<Rightarrow> string \<Rightarrow>
    fs_error option \<times> (string \<rightharpoonup> string)" where
  "unlink fs fault path =
     (case fault of
        Some e \<Rightarrow> (Some e, fs)
      | None \<Rightarrow> if fs path = None then (Some ENOENT, fs) else (None, fs(path := None)))"

text \<open>\<open>imageId\<close> is the value of \<^verbatim>\<open>parseInt(req.params.id, 10)\<close>.\<close>

definition delete_api_images :: "server \<Rightarrow> js_number \<Rightarrow> fs_error option \<Rightarrow> server \<times> response" where
  "delete_api_images s imageId fault =
     (case imageId of
        NaN \<Rightarrow> (s, Response 400 (Json_error ''Invalid image ID (must be a number)!''))
      | Num image_id \<Rightarrow>
          (case select_file_path (db s) image_id of
            Inl err \<Rightarrow> (s, Response 400 (Json_error (message err)))
          | Inr None \<Rightarrow> (s, Response 404 (Json_error ''Image not found in the database!''))
          | Inr (Some file_path) \<Rightarrow>
             (let (err, fs) = unlink (files s) fault file_path;
                  s1 = s\<lparr>files := fs,
                          console := (case err of
                                        None \<Rightarrow> console s
                                      | Some e \<Rightarrow> console s @
                                          [''File deletion failed: '' @ fs_message e file_path])\<rparr>
              in (case delete_annotations_of_image (db s1) image_id of
                   Inl err \<Rightarrow> (s1, Response 400 (Json_error (message err)))
                 | Inr d \<Rightarrow>
                     (case delete_image_row d image_id of
                        Inl err \<Rightarrow> (s1\<lparr>db := d\<rparr>, Response 400 (Json_error (message err)))
                      | Inr d' \<Rightarrow>
                          (s1\<lparr>db := d'\<rparr>,
                           Response 200 (Json_success
                             ''Image deleted successfully (including file and annotations)!'')))))))"

subsection \<open>DELETE /api/annotations\<close>

definition delete_api_annotations :: "server \<Rightarrow> js_number \<Rightarrow> js_number \<Rightarrow> server \<times> response" where
  "delete_api_annotations s imageId labelId =
     (if falsy imageId \<or> falsy labelId \<or> isNaN imageId \<or> isNaN labelId
      then (s, Response 400 (Json_error ''Valid Image ID and Label ID (numbers) are required!''))
      else
        (case (imageId, labelId) of
          (Num image_id, Num label_id) \<Rightarrow>
            (case delete_annotation (db s) image_id label_id of
               Inl err \<Rightarrow> (s, Response 400 (Json_error (message err)))
             | Inr d \<Rightarrow>
                 (s\<lparr>db := d\<rparr>,
                  Response 200 (Json_success ''Label removed from the image successfully!'')))
        | _ \<Rightarrow> (s, Response 400 (Json_error ''Valid Image ID and Label ID (numbers) are required!''))))"

subsection \<open>The callbacks of POST /api/annotations, one statement at a time\<close>

text \<open>
  The handler of \<^verbatim>\<open>POST /api/annotations\<close> hands each statement to the store and goes on in
  the statement's callback, so the statements of two requests can interleave. A task is a
  request between two statements: the statement it has issued, with the values its
  callback has captured, or the response it has sent.
\<close>

datatype attach_task =
    Select_label int string
  | Link_existing int int
  | Create_label int string
  | Link_new int int
  | Responded response

text \<open>The synchronous part of the handler: the validation, then the lookup is issued.\<close>

definition attach_start :: "js_number \<Rightarrow> string \<Rightarrow> attach_task" where
  "attach_start imageId labelName =
     (case imageId of
        NaN \<Rightarrow> Responded (Response 400 (Json_error ''Image ID and label name are required!''))
      | Num image_id \<Rightarrow>
          if falsy imageId \<or> labelName = []
          then Responded (Response 400 (Json_error ''Image ID and label name are required!''))
          else if length labelName > 50
          then Responded (Response 400 (Json_error ''Label name cannot exceed 50 characters!''))
          else Select_label image_id labelName)"

text \<open>The store runs the pending statement of a task and the callback of the statement runs.\<close>

fun attach_step :: "server \<Rightarrow> attach_task \<Rightarrow> server \<times> attach_task" where
  "attach_step s (Select_label image_id labelName) =
     (case select_label_id (db s) labelName of
        Inl err \<Rightarrow> (s, Responded (Response 400 (Json_error (message err))))
      | Inr (Some label_id) \<Rightarrow> (s, Link_existing image_id label_id)
      | Inr None \<Rightarrow> (s, Create_label image_id labelName))"
| "attach_step s (Link_existing image_id label_id) =
     (case insert_or_ignore_annotation (db s) image_id label_id of
        Inl err \<Rightarrow> (s, Responded (Response 400 (Json_error (message err))))
      | Inr d \<Rightarrow>
          (s\<lparr>db := d\<rparr>,
           Responded (Response 200 (Json_success ''Label added (or already linked to the image)!''))))"
| "attach_step s (Create_label image_id labelName) =
     (case insert_label (db s) labelName of
        Inl err \<Rightarrow> (s, Responded (Response 400 (Json_error (message err))))
      | Inr (d, lastID) \<Rightarrow> (s\<lparr>db := d\<rparr>, Link_new image_id lastID))"
| "attach_step s (Link_new image_id label_id) =
     (case insert_annotation (db s) image_id label_id of
        Inl err \<Rightarrow> (s, Responded (Response 400 (Json_error (message err))))
      | Inr d \<Rightarrow>
          (s\<lparr>db := d\<rparr>,
           Responded (Response 200 (Json_success ''New label created and linked to the image!''))))"
| "attach_step s (Responded r) = (s, Responded r)"

text \<open>
  Two requests under a schedule: \<open>True\<close> lets the first request run its next statement,
  \<open>False\<close> the second.
\<close>

fun interleave :: "bool list \<Rightarrow> server \<times> attach_task \<times> attach_task \<Rightarrow>
    server \<times> attach_task \<times> attach_task" where
  "interleave [] c = c"
| "interleave (b # bs) (s, t1, t2) =
     (if b then (case attach_step s t1 of (s', t1') \<Rightarrow> interleave bs (s', t1', t2))
      else (case attach_step s t2 of (s', t2') \<Rightarrow> interleave bs (s', t1, t2')))"

subsection \<open>The label tags of the image grid\<close>

text \<open>
  \<^verbatim>\<open>renderImageGrid\<close> of the front end splits both aggregates of a listed image on
  \<^verbatim>\<open>', '\<close> and pairs the label at each index with \<^verbatim>\<open>labelIds[index]\<close>, which is
  \<^verbatim>\<open>undefined\<close> (\<open>None\<close>) beyond the end of the array. A \<^verbatim>\<open>null\<close> or empty aggregate gives
  the empty array.
\<close>

definition split_field :: "string option \<Rightarrow> string list" where
  "split_field v = (case v of None \<Rightarrow> [] | Some t \<Rightarrow> if t = [] then [] else split_on '', '' t)"

definition label_tags :: "image_with_labels \<Rightarrow> (string \<times> string option) list" where
  "label_tags img =
     (let labels = split_field (r_labels img);
          labelIds = split_field (r_labelIds img)
      in map (\<lambda>(index, label).
                (label, if index < length labelIds then Some (labelIds ! index) else None))
             (enumerate 0 labels))"

section \<open>Reachable states and what the store keeps true\<close>

text \<open>
  The states of the server: a start on a fresh database file, followed by any requests
  to the five routes, each run to its response.
\<close>

inductive reachable :: "server \<Rightarrow> bool" where
  start: "reachable (start_server dir)"
| upload: "reachable s \<Longrightarrow> reachable (fst (post_api_images s now req_file))"
| attach: "reachable s \<Longrightarrow> reachable (fst (post_api_annotations s imageId labelName))"
| listing: "reachable s \<Longrightarrow> reachable (fst (get_api_images s))"
| delete_image: "reachable s \<Longrightarrow> reachable (fst (delete_api_images s imageId fault))"
| detach: "reachable s \<Longrightarrow> reachable (fst (delete_api_annotations s imageId labelId))"

text \<open>
  What the store keeps true of its tables: the uniqueness constraints of the schema, no
  label with an empty name, the counters above every rowid handed out, every annotation
  naming a stored label, and the foreign-key setting left at its default.
\<close>

definition store_inv :: "database \<Rightarrow> bool" where
  "store_inv d =
     (\<not> foreign_keys d \<and>
      distinct (map l_name (labels d)) \<and>
      list_all (\<lambda>l. l_name l \<noteq> []) (labels d) \<and>
      distinct (map l_id (labels d)) \<and>
      list_all (\<lambda>l. l_id l \<le> labels_seq d) (labels d) \<and>
      list_all (\<lambda>a. a_label_id a \<in> set (map l_id (labels d))) (annotations d) \<and>
      distinct (annotations d) \<and>
      distinct (map i_id (images d)) \<and>
      list_all (\<lambda>i. i_id i \<le> images_seq d) (images d) \<and>
      distinct (map i_filename (images d)))"

subsection \<open>Sample requests\<close>

definition cat_jpg :: upload_file where
  "cat_jpg = \<lparr>originalname = ''cat.jpg'', mimetype = ''image/jpeg'', content = ''AAAA''\<rparr>"

definition dog_jpg :: upload_file where
  "dog_jpg = \<lparr>originalname = ''dog.jpg'', mimetype = ''image/jpeg'', content = ''BBBB''\<rparr>"

definition fresh_server :: server where
  "fresh_server = start_server ''/srv''"

text \<open>The server after one upload at \<^verbatim>\<open>Date.now() = 5\<close>: image 1 is stored.\<close>

definition one_image_server :: server where
  "one_image_server = fst (post_api_images fresh_server 5 (Some cat_jpg))"

text \<open>A second upload one millisecond later: image 2 is stored.\<close>

definition two_image_server :: server where
  "two_image_server = fst (post_api_images one_image_server 6 (Some dog_jpg))"

text \<open>Image 1 with the default label \<^verbatim>\<open>cat\<close> attached.\<close>

definition tagged_server :: server where
  "tagged_server = fst (post_api_annotations one_image_server (Num 1) ''cat'')"

text \<open>Image 1 with \<^verbatim>\<open>dog\<close> attached first and \<^verbatim>\<open>cat\<close> second.\<close>

definition dog_then_cat_server :: server where
  "dog_then_cat_server =
     fst (post_api_annotations (fst (post_api_annotations one_image_server (Num 1) ''dog''))
            (Num 1) ''cat'')"

text \<open>Image 1 with a new label whose name holds the separator of the listing.\<close>

definition comma_server :: server where
  "comma_server = fst (post_api_annotations one_image_server (Num 1) ''x, y'')"

subsection \<open>Texts without the separator, and the value of a numeral\<close>

text \<open>A text in which \<^verbatim>\<open>', '\<close> does not occur.\<close>

fun no_delim :: "string \<Rightarrow> bool" where
  "no_delim (a # b # cs) = (\<not> (a = CHR '','' \<and> b = CHR '' '') \<and> no_delim (b # cs))"
| "no_delim cs = True"

text \<open>The number a decimal numeral stands for.\<close>

definition digits_value :: "string \<Rightarrow> nat" where
  "digits_value cs = foldl (\<lambda>v c. 10 * v + (of_char c - 48)) 0 cs"

subsection \<open>Measures on tasks\<close>

text \<open>The label rows that bear a name.\<close>

definition named :: "string \<Rightarrow> server \<Rightarrow> label_row list" where
  "named nm s = filter (\<lambda>l. l_name l = nm) (labels (db s))"

text \<open>
  What a task on the name \<open>nm\<close> has established: before its \<^verbatim>\<open>INSERT INTO labels\<close> it only
  carries the name; from then on exactly one row bears the name.
\<close>

fun task_ok :: "string \<Rightarrow> server \<Rightarrow> attach_task \<Rightarrow> bool" where
  "task_ok nm s (Select_label i n) = (n = nm)"
| "task_ok nm s (Create_label i n) = (n = nm)"
| "task_ok nm s t = (length (named nm s) = 1)"

text \<open>An upper bound on the statements a task still has to run.\<close>

fun steps_left :: "attach_task \<Rightarrow> nat" where
  "steps_left (Select_label i n) = 3"
| "steps_left (Create_label i n) = 2"
| "steps_left (Link_existing i l) = 1"
| "steps_left (Link_new i l) = 1"
| "steps_left (Responded r) = 0"

section \<open>Evaluating the sample states\<close>

lemma db_init_eq:
  "db_init = \<lparr>foreign_keys = False, images = [], images_seq = 0,
     labels = [\<lparr>l_id = 1, l_name = ''cat''\<rparr>, \<lparr>l_id = 2, l_name = ''dog''\<rparr>,
               \<lparr>l_id = 3, l_name = ''car''\<rparr>],
     labels_seq = 3, annotations = []\<rparr>"
  by (simp add: db_init_def sqlite_open_def insert_or_ignore_label_def)

lemma fresh_server_eq:
  "fresh_server = \<lparr>db = db_init, files = Map.empty, console = [], dirname = ''/srv''\<rparr>"
  by (simp add: fresh_server_def start_server_def)

lemma digits_of_small: "n < 10 \<Longrightarrow> digits_of n = [digit_char n]"
  by (simp add: digits_of.simps)

lemma filename_cat: "filename 5 cat_jpg = ''image-5.jpg''"
  by (simp add: filename_def cat_jpg_def split_on_def digits_of_small digit_char_def)

lemma filename_dog: "filename 5 dog_jpg = ''image-5.jpg''"
  by (simp add: filename_def dog_jpg_def split_on_def digits_of_small digit_char_def)

lemma one_image_server_eq:
  "one_image_server =
     \<lparr>db = \<lparr>foreign_keys = False,
        images = [\<lparr>i_id = 1, i_filename = ''image-5.jpg'',
                   i_file_path = ''/srv/uploads/image-5.jpg''\<rparr>],
        images_seq = 1,
        labels = [\<lparr>l_id = 1, l_name = ''cat''\<rparr>, \<lparr>l_id = 2, l_name = ''dog''\<rparr>,
                  \<lparr>l_id = 3, l_name = ''car''\<rparr>],
        labels_seq = 3, annotations = []\<rparr>,
      files = [''/srv/uploads/image-5.jpg'' \<mapsto> ''AAAA''], console = [], dirname = ''/srv''\<rparr>"
  by (simp add: one_image_server_def fresh_server_eq post_api_images_def db_init_eq
      filename_cat fileFilter_def insert_image_def path_join_def Let_def)
    (simp add: cat_jpg_def)

lemma filename_dog_6: "filename 6 dog_jpg = ''image-6.jpg''"
  by (simp add: filename_def dog_jpg_def split_on_def digits_of_small digit_char_def)

lemma two_image_server_eq:
  "two_image_server =
     one_image_server\<lparr>db := (db one_image_server)
        \<lparr>images := [\<lparr>i_id = 1, i_filename = ''image-5.jpg'',
                      i_file_path = ''/srv/uploads/image-5.jpg''\<rparr>,
                    \<lparr>i_id = 2, i_filename = ''image-6.jpg'',
                      i_file_path = ''/srv/uploads/image-6.jpg''\<rparr>],
          images_seq := 2\<rparr>,
       files := [''/srv/uploads/image-5.jpg'' \<mapsto> ''AAAA'',
                 ''/srv/uploads/image-6.jpg'' \<mapsto> ''BBBB'']\<rparr>"
  by (simp add: two_image_server_def one_image_server_eq post_api_images_def
      filename_dog_6 fileFilter_def insert_image_def path_join_def Let_def)
    (simp add: dog_jpg_def)

lemma tagged_server_eq:
  "tagged_server =
     one_image_server\<lparr>db := (db one_image_server)
        \<lparr>annotations := [\<lparr>a_image_id = 1, a_label_id = 1\<rparr>]\<rparr>\<rparr>"
  by (simp add: tagged_server_def one_image_server_eq post_api_annotations_def select_label_id_def
      insert_or_ignore_annotation_def fk_violation_def)

lemma comma_server_eq:
  "comma_server =
     one_image_server\<lparr>db := (db one_image_server)
       \<lparr>labels := [\<lparr>l_id = 1, l_name = ''cat''\<rparr>, \<lparr>l_id = 2, l_name = ''dog''\<rparr>,
                   \<lparr>l_id = 3, l_name = ''car''\<rparr>, \<lparr>l_id = 4, l_name = ''x, y''\<rparr>],
         labels_seq := 4,
         annotations := [\<lparr>a_image_id = 1, a_label_id = 4\<rparr>]\<rparr>\<rparr>"
  by (simp add: comma_server_def one_image_server_eq post_api_annotations_def select_label_id_def
      insert_label_def insert_annotation_def fk_violation_def)

lemma show_int_4: "show_int 4 = ''4''"
  by (simp add: show_int_def digits_of_small digit_char_def)

lemma reachable_fresh: "reachable fresh_server"
  unfolding fresh_server_def by (rule reachable.start)

lemma reachable_one_image: "reachable one_image_server"
  unfolding one_image_server_def by (rule reachable.upload [OF reachable_fresh])

lemma reachable_two_image: "reachable two_image_server"
  unfolding two_image_server_def by (rule reachable.upload [OF reachable_one_image])

lemma reachable_tagged: "reachable tagged_server"
  unfolding tagged_server_def by (rule reachable.attach [OF reachable_one_image])

lemma reachable_comma: "reachable comma_server"
  unfolding comma_server_def by (rule reachable.attach [OF reachable_one_image])

section \<open>Deleting an image\<close>

text \<open>
  Claim C8. \<^verbatim>\<open>DELETE /api/images/:id\<close> with a numeric id that no stored image has answers
  404 with the not-found message and returns the server as it was: no row of any table, no
  file and no console line is changed.
\<close>

theorem delete_unknown_image:
  assumes "image_id \<notin> set (map i_id (images (db s)))"
  shows "delete_api_images s (Num image_id) fault =
           (s, Response 404 (Json_error ''Image not found in the database!''))"
proof -
  have "find (\<lambda>i. i_id i = image_id) (images (db s)) = None"
    using assms by (auto simp: find_None_iff)
  then show ?thesis
    by (simp add: delete_api_images_def select_file_path_def)
qed

theorem delete_unknown_image_witness:
  "2 \<notin> set (map i_id (images (db one_image_server))) \<and>
   delete_api_images one_image_server (Num 2) None =
     (one_image_server, Response 404 (Json_error ''Image not found in the database!''))"
proof -
  have h: "2 \<notin> set (map i_id (images (db one_image_server)))"
    by (simp add: one_image_server_eq)
  show ?thesis
    using h delete_unknown_image [OF h, of None] by simp
qed

text \<open>
  Claim C2. \<^verbatim>\<open>DELETE /api/images/:id\<close> for the id of a stored image answers 200 with the
  success message and leaves the store without the image row and without any annotation of
  that image, whatever \<^verbatim>\<open>fs.unlink\<close> does. When the removal of the file fails, the disk is
  unchanged and the only trace is one more console line; when it succeeds, the file is gone
  and the console is unchanged.
\<close>

theorem delete_image_best_effort:
  assumes "find (\<lambda>i. i_id i = image_id) (images (db s)) = Some row"
  shows "snd (delete_api_images s (Num image_id) fault) =
           Response 200
             (Json_success ''Image deleted successfully (including file and annotations)!'') \<and>
         db (fst (delete_api_images s (Num image_id) fault)) =
           (db s)\<lparr>images := filter (\<lambda>i. i_id i \<noteq> image_id) (images (db s)),
                   annotations :=
                     filter (\<lambda>a. a_image_id a \<noteq> image_id) (annotations (db s))\<rparr> \<and>
         (case fst (unlink (files s) fault (i_file_path row)) of
            None \<Rightarrow>
              console (fst (delete_api_images s (Num image_id) fault)) = console s \<and>
              files (fst (delete_api_images s (Num image_id) fault)) =
                (files s)(i_file_path row := None)
          | Some e \<Rightarrow>
              files (fst (delete_api_images s (Num image_id) fault)) = files s \<and>
              console (fst (delete_api_images s (Num image_id) fault)) =
                console s @ [''File deletion failed: '' @ fs_message e (i_file_path row)])"
  using assms
  by (auto simp: delete_api_images_def select_file_path_def delete_annotations_of_image_def
      delete_image_row_def unlink_def Let_def split: option.splits prod.splits)

theorem delete_image_best_effort_witness:
  "find (\<lambda>i. i_id i = 1) (images (db one_image_server)) =
     Some \<lparr>i_id = 1, i_filename = ''image-5.jpg'', i_file_path = ''/srv/uploads/image-5.jpg''\<rparr> \<and>
   snd (delete_api_images one_image_server (Num 1) (Some EACCES)) =
     Response 200
       (Json_success ''Image deleted successfully (including file and annotations)!'') \<and>
   images (db (fst (delete_api_images one_image_server (Num 1) (Some EACCES)))) = [] \<and>
   files (fst (delete_api_images one_image_server (Num 1) (Some EACCES)))
     ''/srv/uploads/image-5.jpg'' = Some ''AAAA''"
proof -
  have h: "find (\<lambda>i. i_id i = 1) (images (db one_image_server)) =
     Some \<lparr>i_id = 1, i_filename = ''image-5.jpg'', i_file_path = ''/srv/uploads/image-5.jpg''\<rparr>"
    by (simp add: one_image_server_eq)
  show ?thesis
    using h delete_image_best_effort [OF h, of "Some EACCES"]
    by (simp add: unlink_def one_image_server_eq)
qed

section \<open>What the delete routes leave alone\<close>

text \<open>
  Claim C10. Neither \<^verbatim>\<open>DELETE /api/annotations\<close> nor \<^verbatim>\<open>DELETE /api/images/:id\<close> changes the
  \<^verbatim>\<open>labels\<close> table or its counter, for every state and every input, so a label that loses its
  last annotation stays stored; \<^verbatim>\<open>DELETE /api/annotations\<close> also leaves the \<^verbatim>\<open>images\<close> table
  as it was.
\<close>

theorem delete_routes_keep_labels:
  "labels (db (fst (delete_api_annotations s imageId labelId))) = labels (db s) \<and>
   labels_seq (db (fst (delete_api_annotations s imageId labelId))) = labels_seq (db s) \<and>
   images (db (fst (delete_api_annotations s imageId labelId))) = images (db s) \<and>
   labels (db (fst (delete_api_images s imageId' fault))) = labels (db s) \<and>
   labels_seq (db (fst (delete_api_images s imageId' fault))) = labels_seq (db s)"
  by (auto simp: delete_api_annotations_def delete_api_images_def delete_annotation_def
      select_file_path_def delete_annotations_of_image_def delete_image_row_def unlink_def Let_def
      split: js_number.splits option.splits prod.splits)

section \<open>The store invariant\<close>

lemma find_SomeD: "find P xs = Some x \<Longrightarrow> x \<in> set xs \<and> P x"
  by (induction xs) (auto split: if_splits)

lemma find_name_Some:
  "name \<in> set (map l_name ls) \<Longrightarrow> \<exists>l. find (\<lambda>l. l_name l = name) ls = Some l"
  by (induction ls) auto

lemma store_inv_db_init: "store_inv db_init"
  by (simp add: store_inv_def db_init_eq)

lemma store_inv_insert_or_ignore_annotation:
  assumes "store_inv d" and "label_id \<in> set (map l_id (labels d))"
    and "insert_or_ignore_annotation d image_id label_id = Inr d'"
  shows "store_inv d'"
  using assms
  by (auto simp: store_inv_def insert_or_ignore_annotation_def split: if_splits)

lemma store_inv_insert_annotation:
  assumes "store_inv d" and "label_id \<in> set (map l_id (labels d))"
    and "insert_annotation d image_id label_id = Inr d'"
  shows "store_inv d'"
  using assms
  by (auto simp: store_inv_def insert_annotation_def split: if_splits)

lemma store_inv_insert_label:
  assumes "store_inv d" and "insert_label d name = Inr (d', lastID)" and "name \<noteq> []"
  shows "store_inv d' \<and> lastID \<in> set (map l_id (labels d'))"
  using assms
  by (fastforce simp: store_inv_def insert_label_def list_all_iff split: if_splits)

lemma store_inv_insert_image:
  assumes "store_inv d" and "insert_image d name path = Inr (d', lastID)"
  shows "store_inv d'"
  using assms
  by (fastforce simp: store_inv_def insert_image_def list_all_iff split: if_splits)

lemma store_inv_delete_annotation:
  assumes "store_inv d" and "delete_annotation d image_id label_id = Inr d'"
  shows "store_inv d'"
  using assms
  by (auto simp: store_inv_def delete_annotation_def list_all_iff)

lemma store_inv_delete_annotations_of_image:
  assumes "store_inv d" and "delete_annotations_of_image d image_id = Inr d'"
  shows "store_inv d'"
  using assms
  by (auto simp: store_inv_def delete_annotations_of_image_def list_all_iff)

lemma store_inv_delete_image_row:
  assumes "store_inv d" and "delete_image_row d image_id = Inr d'"
  shows "store_inv d'"
  using assms
  by (auto simp: store_inv_def delete_image_row_def list_all_iff distinct_map_filter)

lemma store_inv_post_api_annotations:
  assumes "store_inv (db s)"
  shows "store_inv (db (fst (post_api_annotations s imageId labelName)))"
proof (cases "falsy imageId \<or> labelName = [] \<or> 50 < length labelName")
  case True
  with assms show ?thesis
    by (cases imageId) (auto simp: post_api_annotations_def)
next
  case False
  then obtain n where Num: "imageId = Num n" and n: "n \<noteq> 0"
    and name: "labelName \<noteq> []" and len: "length labelName \<le> 50"
    by (cases imageId) auto
  show ?thesis
  proof (cases "find (\<lambda>l. l_name l = labelName) (labels (db s))")
    case None
    show ?thesis
    proof (cases "insert_label (db s) labelName")
      case (Inl e)
      with None Num assms show ?thesis
        by (simp add: post_api_annotations_def select_label_id_def)
    next
      case (Inr p)
      obtain d lastID where p: "p = (d, lastID)" by (cases p)
      from store_inv_insert_label [OF assms Inr [unfolded p] name]
      have d: "store_inv d" and l: "lastID \<in> set (map l_id (labels d))" by simp_all
      show ?thesis
      proof (cases "insert_annotation d n lastID")
        case (Inl e)
        with None Num \<open>insert_label (db s) labelName = Inr p\<close> p d assms show ?thesis
          by (simp add: post_api_annotations_def select_label_id_def)
      next
        case (Inr d')
        from store_inv_insert_annotation [OF d l Inr] have "store_inv d'" .
        with None Num \<open>insert_label (db s) labelName = Inr p\<close> p Inr assms show ?thesis
          by (simp add: post_api_annotations_def select_label_id_def)
      qed
    qed
  next
    case (Some l)
    from find_SomeD [OF Some] have l: "l_id l \<in> set (map l_id (labels (db s)))" by simp
    show ?thesis
    proof (cases "insert_or_ignore_annotation (db s) n (l_id l)")
      case (Inl e)
      with Some Num assms show ?thesis
        by (simp add: post_api_annotations_def select_label_id_def)
    next
      case (Inr d')
      from store_inv_insert_or_ignore_annotation [OF assms l Inr] have "store_inv d'" .
      with Some Num Inr assms show ?thesis
        by (simp add: post_api_annotations_def select_label_id_def)
    qed
  qed
qed

lemma store_inv_post_api_images:
  assumes "store_inv (db s)"
  shows "store_inv (db (fst (post_api_images s now req_file)))"
proof (cases req_file)
  case None
  with assms show ?thesis by (simp add: post_api_images_def)
next
  case (Some f)
  let ?name = "filename now f"
  let ?path = "path_join (path_join (dirname s) ''uploads'') ?name"
  show ?thesis
  proof (cases "insert_image (db s) ?name ?path")
    case (Inl e)
    with Some assms show ?thesis by (simp add: post_api_images_def Let_def)
  next
    case (Inr p)
    obtain d lastID where p: "p = (d, lastID)" by (cases p)
    from store_inv_insert_image [OF assms Inr [unfolded p]] have "store_inv d" .
    with Some Inr p assms show ?thesis by (simp add: post_api_images_def Let_def)
  qed
qed

lemma store_inv_delete_api_annotations:
  assumes "store_inv (db s)"
  shows "store_inv (db (fst (delete_api_annotations s imageId labelId)))"
  using assms store_inv_delete_annotation [OF assms]
  by (auto simp: delete_api_annotations_def delete_annotation_def
      split: js_number.splits)

lemma store_inv_delete_api_images:
  assumes "store_inv (db s)"
  shows "store_inv (db (fst (delete_api_images s imageId fault)))"
proof (cases imageId)
  case NaN
  with assms show ?thesis by (simp add: delete_api_images_def)
next
  case (Num n)
  show ?thesis
  proof (cases "find (\<lambda>i. i_id i = n) (images (db s))")
    case None
    with Num assms show ?thesis by (simp add: delete_api_images_def select_file_path_def)
  next
    case (Some row)
    obtain d where d: "delete_annotations_of_image (db s) n = Inr d"
      by (simp add: delete_annotations_of_image_def)
    obtain d' where d': "delete_image_row d n = Inr d'"
      by (simp add: delete_image_row_def)
    have "store_inv d'"
      using store_inv_delete_image_row [OF store_inv_delete_annotations_of_image [OF assms d] d'] .
    with Some Num d d' show ?thesis
      by (simp add: delete_api_images_def select_file_path_def Let_def split: prod.splits)
  qed
qed

lemma reachable_store_inv: "reachable s \<Longrightarrow> store_inv (db s)"
proof (induction rule: reachable.induct)
  case (start dir)
  show ?case by (simp add: start_server_def store_inv_db_init)
next
  case (listing s)
  then show ?case by (simp add: get_api_images_def select_images_with_labels_def)
qed (simp_all add: store_inv_post_api_images store_inv_post_api_annotations
    store_inv_delete_api_images store_inv_delete_api_annotations)

section \<open>Two requests for one new label\<close>

lemma named_empty_iff: "named nm s = [] \<longleftrightarrow> nm \<notin> set (map l_name (labels (db s)))"
  by (auto simp: named_def filter_empty_conv)

lemma find_None_named: "find (\<lambda>l. l_name l = nm) (labels (db s)) = None \<longleftrightarrow> named nm s = []"
  by (auto simp: named_def filter_empty_conv find_None_iff)

lemma length_one: "xs \<noteq> [] \<Longrightarrow> length xs \<le> 1 \<Longrightarrow> length xs = 1"
  by (cases xs) auto


lemma attach_step_named:
  assumes "attach_step s t = (s', t')" and "task_ok nm s t" and "length (named nm s) \<le> 1"
  shows "task_ok nm s' t' \<and> length (named nm s') \<le> 1 \<and>
         (length (named nm s) = 1 \<longrightarrow> length (named nm s') = 1)"
proof (cases t)
  case (Select_label i n)
  with assms(2) have n: "n = nm" by simp
  show ?thesis
  proof (cases "find (\<lambda>l. l_name l = nm) (labels (db s))")
    case None
    with assms Select_label n show ?thesis
      by (auto simp: select_label_id_def)
  next
    case (Some l)
    from find_SomeD [OF Some] have "l \<in> set (named nm s)" by (simp add: named_def)
    then have "named nm s \<noteq> []" by auto
    from length_one [OF this assms(3)] have "length (named nm s) = 1" .
    with assms Select_label n Some show ?thesis
      by (auto simp: select_label_id_def)
  qed
next
  case (Link_existing i l)
  with assms show ?thesis
    by (auto simp: insert_or_ignore_annotation_def named_def split: if_splits)
next
  case (Create_label i n)
  with assms(2) have n: "n = nm" by simp
  show ?thesis
  proof (cases "nm \<in> set (map l_name (labels (db s)))")
    case True
    then have "named nm s \<noteq> []" by (simp add: named_empty_iff)
    from length_one [OF this assms(3)] have "length (named nm s) = 1" .
    with assms Create_label n True show ?thesis
      by (auto simp: insert_label_def)
  next
    case False
    then have "named nm s = []" by (simp add: named_empty_iff)
    with assms Create_label n False show ?thesis
      by (auto simp: insert_label_def named_def)
  qed
next
  case (Link_new i l)
  with assms show ?thesis
    by (auto simp: insert_annotation_def named_def split: if_splits)
next
  case (Responded r)
  with assms show ?thesis by auto
qed

lemma task_ok_mono:
  assumes "task_ok nm s t" and "length (named nm s) = 1 \<longrightarrow> length (named nm s') = 1"
  shows "task_ok nm s' t"
  using assms by (cases t) auto

lemma interleave_named:
  assumes "interleave sched (s, t1, t2) = (s', t1', t2')"
    and "task_ok nm s t1" and "task_ok nm s t2" and "length (named nm s) \<le> 1"
  shows "task_ok nm s' t1' \<and> task_ok nm s' t2' \<and> length (named nm s') \<le> 1"
  using assms
proof (induction sched arbitrary: s t1 t2)
  case Nil
  then show ?case by simp
next
  case (Cons b bs)
  show ?case
  proof (cases b)
    case True
    obtain u v where st: "attach_step s t1 = (u, v)" by (cases "attach_step s t1")
    from attach_step_named [OF st Cons.prems(2) Cons.prems(4)]
    have v: "task_ok nm u v" and le: "length (named nm u) \<le> 1"
      and keep: "length (named nm s) = 1 \<longrightarrow> length (named nm u) = 1" by simp_all
    from task_ok_mono [OF Cons.prems(3) keep] have t2: "task_ok nm u t2" .
    from Cons.prems(1) True st have "interleave bs (u, v, t2) = (s', t1', t2')" by simp
    from Cons.IH [OF this v t2 le] show ?thesis .
  next
    case False
    obtain u v where st: "attach_step s t2 = (u, v)" by (cases "attach_step s t2")
    from attach_step_named [OF st Cons.prems(3) Cons.prems(4)]
    have v: "task_ok nm u v" and le: "length (named nm u) \<le> 1"
      and keep: "length (named nm s) = 1 \<longrightarrow> length (named nm u) = 1" by simp_all
    from task_ok_mono [OF Cons.prems(2) keep] have t1: "task_ok nm u t1" .
    from Cons.prems(1) False st have "interleave bs (u, t1, v) = (s', t1', t2')" by simp
    from Cons.IH [OF this t1 v le] show ?thesis .
  qed
qed

lemma attach_start_valid:
  assumes "image_id \<noteq> 0" and "labelName \<noteq> []" and "length labelName \<le> 50"
  shows "attach_start (Num image_id) labelName = Select_label image_id labelName"
  using assms by (simp add: attach_start_def)

lemma interleaved_attach_one_label:
  assumes "labelName \<notin> set (map l_name (labels (db s)))"
    and "image_id1 \<noteq> 0" and "image_id2 \<noteq> 0" and "labelName \<noteq> []" and "length labelName \<le> 50"
    and "interleave sched (s, attach_start (Num image_id1) labelName,
            attach_start (Num image_id2) labelName) = (s', Responded r1, Responded r2)"
  shows "length (filter (\<lambda>l. l_name l = labelName) (labels (db s'))) = 1"
proof -
  from assms(1) have "named labelName s = []" by (simp add: named_empty_iff)
  then have le: "length (named labelName s) \<le> 1" by simp
  from interleave_named [OF assms(6) [unfolded attach_start_valid [OF assms(2,4,5)]
      attach_start_valid [OF assms(3,4,5)]] _ _ le]
  have "task_ok labelName s' (Responded r1)" by simp
  then show ?thesis by (simp add: named_def)
qed

text \<open>Run back to back, the three statements of a request are the handler.\<close>

lemma attach_steps_sequential:
  "interleave [True, True, True] (s, attach_start imageId labelName, t2) =
     (fst (post_api_annotations s imageId labelName),
      Responded (snd (post_api_annotations s imageId labelName)), t2)"
  by (cases imageId)
    (auto simp: attach_start_def post_api_annotations_def
      split: sum.splits option.splits prod.splits)

section \<open>Counting annotation rows\<close>

lemma count_pair:
  "distinct as \<Longrightarrow>
   length (filter (\<lambda>a. a_image_id a = i \<and> a_label_id a = l) as) =
     (if \<lparr>a_image_id = i, a_label_id = l\<rparr> \<in> set as then 1 else 0)"
proof (induction as)
  case Nil
  show ?case by simp
next
  case (Cons a as)
  have eq: "(a_image_id a = i \<and> a_label_id a = l) \<longleftrightarrow> a = \<lparr>a_image_id = i, a_label_id = l\<rparr>"
    by auto
  from Cons show ?case
    by (auto simp: eq)
qed

section \<open>Attaching a label\<close>

text \<open>
  Claim C4, as the code has it. \<^verbatim>\<open>POST /api/annotations\<close> answers with the validation error
  "required" and leaves the server unchanged when \<^verbatim>\<open>imageId\<close> is falsy (\<^verbatim>\<open>0\<close> or \<^verbatim>\<open>NaN\<close>)
  or the label name is empty, and with the validation error "cannot exceed 50 characters"
  and no change when the name is longer than 50. For every other input, a negative id
  included, the response is neither of the two validation errors.
\<close>

theorem attach_validation:
  "(falsy imageId \<or> labelName = [] \<longrightarrow>
      post_api_annotations s imageId labelName =
        (s, Response 400 (Json_error ''Image ID and label name are required!''))) \<and>
   (\<not> falsy imageId \<and> labelName \<noteq> [] \<and> 50 < length labelName \<longrightarrow>
      post_api_annotations s imageId labelName =
        (s, Response 400 (Json_error ''Label name cannot exceed 50 characters!''))) \<and>
   (\<not> falsy imageId \<and> labelName \<noteq> [] \<and> length labelName \<le> 50 \<longrightarrow>
      snd (post_api_annotations s imageId labelName) \<noteq>
        Response 400 (Json_error ''Image ID and label name are required!'') \<and>
      snd (post_api_annotations s imageId labelName) \<noteq>
        Response 400 (Json_error ''Label name cannot exceed 50 characters!''))"
proof -
  have msg: "\<And>err. message err \<noteq> ''Image ID and label name are required!'' \<and>
                  message err \<noteq> ''Label name cannot exceed 50 characters!''"
    subgoal for err by (cases err) simp_all
    done
  show ?thesis
    by (cases imageId)
      (auto simp: post_api_annotations_def msg split: sum.splits option.splits prod.splits)
qed

theorem attach_validation_witness:
  "post_api_annotations one_image_server (Num 0) ''cat'' =
     (one_image_server, Response 400 (Json_error ''Image ID and label name are required!'')) \<and>
   post_api_annotations one_image_server (Num 1) [] =
     (one_image_server, Response 400 (Json_error ''Image ID and label name are required!'')) \<and>
   post_api_annotations one_image_server (Num 1) (replicate 51 CHR ''a'') =
     (one_image_server, Response 400 (Json_error ''Label name cannot exceed 50 characters!'')) \<and>
   snd (post_api_annotations one_image_server (Num 1) ''cat'') \<noteq>
     Response 400 (Json_error ''Image ID and label name are required!'') \<and>
   snd (post_api_annotations one_image_server (Num 1) ''cat'') \<noteq>
     Response 400 (Json_error ''Label name cannot exceed 50 characters!'')"
  using attach_validation [of "Num 0" "''cat''" one_image_server]
    attach_validation [of "Num 1" "[]" one_image_server]
    attach_validation [of "Num 1" "replicate 51 CHR ''a''" one_image_server]
    attach_validation [of "Num 1" "''cat''" one_image_server]
  by simp

text \<open>
  The claim as the specification words it fails for an id that is not positive: with
  \<^verbatim>\<open>imageId = -5\<close> the request passes the validation, is answered 200 and stores a row.
\<close>

theorem attach_negative_id_counterexample:
  "post_api_annotations fresh_server (Num (- 5)) ''cat'' =
     (fresh_server\<lparr>db := db_init\<lparr>annotations := [\<lparr>a_image_id = - 5, a_label_id = 1\<rparr>]\<rparr>\<rparr>,
      Response 200 (Json_success ''Label added (or already linked to the image)!''))"
  by (simp add: post_api_annotations_def fresh_server_eq db_init_eq select_label_id_def
      insert_or_ignore_annotation_def fk_violation_def)

text \<open>
  In a reachable state an accepted request never fails: it is answered 200 with one of
  the two success messages.
\<close>

lemma attach_accepted_succeeds:
  assumes "reachable s" and "image_id \<noteq> 0" and "labelName \<noteq> []" and "length labelName \<le> 50"
  shows "snd (post_api_annotations s (Num image_id) labelName) \<in>
           {Response 200 (Json_success ''Label added (or already linked to the image)!''),
            Response 200 (Json_success ''New label created and linked to the image!'')}"
proof -
  from assms(1) have inv: "store_inv (db s)" by (rule reachable_store_inv)
  then have fk: "\<not> foreign_keys (db s)" by (simp add: store_inv_def)
  show ?thesis
  proof (cases "find (\<lambda>l. l_name l = labelName) (labels (db s))")
    case (Some l)
    with assms(2-4) fk show ?thesis
      by (simp add: post_api_annotations_def select_label_id_def insert_or_ignore_annotation_def
          fk_violation_def)
  next
    case None
    then have absent: "labelName \<notin> set (map l_name (labels (db s)))"
      by (auto simp: find_None_iff)
    have fresh: "\<lparr>a_image_id = image_id, a_label_id = labels_seq (db s) + 1\<rparr>
        \<notin> set (annotations (db s))"
    proof
      assume "\<lparr>a_image_id = image_id, a_label_id = labels_seq (db s) + 1\<rparr>
        \<in> set (annotations (db s))"
      with inv have "labels_seq (db s) + 1 \<in> set (map l_id (labels (db s)))"
        by (force simp: store_inv_def list_all_iff)
      with inv have "labels_seq (db s) + 1 \<le> labels_seq (db s)"
        by (force simp: store_inv_def list_all_iff)
      then show False by simp
    qed
    from assms(2-4) None absent fk fresh show ?thesis
      by (simp add: post_api_annotations_def select_label_id_def insert_label_def
          insert_annotation_def fk_violation_def)
  qed
qed

text \<open>
  Claim C1, at the input where the code departs from it. On the freshly started server no
  image is stored; \<^verbatim>\<open>POST /api/annotations\<close> with \<^verbatim>\<open>imageId = 999\<close> and the default label
  \<^verbatim>\<open>cat\<close> is answered 200 and leaves the annotation row (999, 1), whose \<^verbatim>\<open>image_id\<close> names
  no image row.
\<close>

theorem attach_unknown_image_dangling:
  "post_api_annotations fresh_server (Num 999) ''cat'' =
     (fresh_server\<lparr>db := db_init\<lparr>annotations := [\<lparr>a_image_id = 999, a_label_id = 1\<rparr>]\<rparr>\<rparr>,
      Response 200 (Json_success ''Label added (or already linked to the image)!'')) \<and>
   \<lparr>a_image_id = 999, a_label_id = 1\<rparr> \<in>
     set (annotations (db (fst (post_api_annotations fresh_server (Num 999) ''cat'')))) \<and>
   999 \<notin> set (map i_id (images (db (fst (post_api_annotations fresh_server (Num 999) ''cat'')))))"
  by (simp add: post_api_annotations_def fresh_server_eq db_init_eq select_label_id_def
      insert_or_ignore_annotation_def fk_violation_def)

text \<open>
  The rest of the invariant of C1 holds in every reachable state: each annotation names a
  stored label, and no route deletes a label. On a connection that enforces foreign keys
  the same request is refused by the store.
\<close>

lemma reachable_label_references:
  assumes "reachable s" and "a \<in> set (annotations (db s))"
  shows "a_label_id a \<in> set (map l_id (labels (db s)))"
  using reachable_store_inv [OF assms(1)] assms(2)
  by (simp add: store_inv_def list_all_iff)

lemma attach_unknown_image_with_foreign_keys:
  assumes "foreign_keys (db s)" and "image_id \<notin> set (map i_id (images (db s)))"
    and "image_id \<noteq> 0" and "labelName \<noteq> []" and "length labelName \<le> 50"
    and "find (\<lambda>l. l_name l = labelName) (labels (db s)) = Some l"
  shows "post_api_annotations s (Num image_id) labelName =
           (s, Response 400 (Json_error ''SQLITE_CONSTRAINT: FOREIGN KEY constraint failed''))"
  using assms
  by (simp add: post_api_annotations_def select_label_id_def insert_or_ignore_annotation_def
      fk_violation_def)

text \<open>
  Claim C5. In a reachable state, two \<^verbatim>\<open>POST /api/annotations\<close> requests with the same
  accepted image id and the name of a stored label are both answered 200 with the "linked"
  message; the second leaves the server as the first left it, and exactly one annotation
  row holds the pair of the image id and the label's id.
\<close>

theorem attach_existing_label_twice:
  assumes "reachable s"
    and "image_id \<noteq> 0" and "labelName \<noteq> []" and "length labelName \<le> 50"
    and "find (\<lambda>l. l_name l = labelName) (labels (db s)) = Some l"
    and "post_api_annotations s (Num image_id) labelName = (s1, r1)"
    and "post_api_annotations s1 (Num image_id) labelName = (s2, r2)"
  shows "r1 = Response 200 (Json_success ''Label added (or already linked to the image)!'') \<and>
         r2 = Response 200 (Json_success ''Label added (or already linked to the image)!'') \<and>
         s2 = s1 \<and>
         length (filter (\<lambda>a. a_image_id a = image_id \<and> a_label_id a = l_id l)
                   (annotations (db s2))) = 1"
proof -
  let ?row = "\<lparr>a_image_id = image_id, a_label_id = l_id l\<rparr>"
  from assms(1) have inv: "store_inv (db s)" by (rule reachable_store_inv)
  then have fk: "\<not> fk_violation (db s) image_id (l_id l)"
    and dist: "distinct (annotations (db s))"
    by (simp_all add: store_inv_def fk_violation_def)
  have first: "post_api_annotations s (Num image_id) labelName =
      (s\<lparr>db := (db s)\<lparr>annotations :=
            (if ?row \<in> set (annotations (db s)) then annotations (db s)
             else annotations (db s) @ [?row])\<rparr>\<rparr>,
       Response 200 (Json_success ''Label added (or already linked to the image)!''))"
    using assms(2-5) fk
    by (simp add: post_api_annotations_def select_label_id_def insert_or_ignore_annotation_def)
  with assms(6) have s1: "s1 = s\<lparr>db := (db s)\<lparr>annotations :=
            (if ?row \<in> set (annotations (db s)) then annotations (db s)
             else annotations (db s) @ [?row])\<rparr>\<rparr>"
    and r1: "r1 = Response 200 (Json_success ''Label added (or already linked to the image)!'')"
    by simp_all
  have stored: "?row \<in> set (annotations (db s1))"
    and dist1: "distinct (annotations (db s1))"
    and lab1: "find (\<lambda>l. l_name l = labelName) (labels (db s1)) = Some l"
    and fk1: "\<not> fk_violation (db s1) image_id (l_id l)"
    using dist assms(5) inv by (simp_all add: s1 fk_violation_def store_inv_def)
  have second: "post_api_annotations s1 (Num image_id) labelName =
      (s1, Response 200 (Json_success ''Label added (or already linked to the image)!''))"
    using assms(2-4) lab1 fk1 stored
    by (simp add: post_api_annotations_def select_label_id_def insert_or_ignore_annotation_def)
  with assms(7) have s2: "s2 = s1"
    and r2: "r2 = Response 200 (Json_success ''Label added (or already linked to the image)!'')"
    by simp_all
  have "length (filter (\<lambda>a. a_image_id a = image_id \<and> a_label_id a = l_id l)
                   (annotations (db s1))) = 1"
    using stored dist1 by (simp add: count_pair)
  with r1 r2 s2 show ?thesis by simp
qed

theorem attach_existing_label_twice_witness:
  "reachable one_image_server \<and>
   find (\<lambda>l. l_name l = ''cat'') (labels (db one_image_server)) = Some \<lparr>l_id = 1, l_name = ''cat''\<rparr> \<and>
   post_api_annotations one_image_server (Num 1) ''cat'' =
     (tagged_server, Response 200 (Json_success ''Label added (or already linked to the image)!'')) \<and>
   post_api_annotations tagged_server (Num 1) ''cat'' =
     (tagged_server, Response 200 (Json_success ''Label added (or already linked to the image)!'')) \<and>
   length (filter (\<lambda>a. a_image_id a = 1 \<and> a_label_id a = 1) (annotations (db tagged_server))) = 1"
proof -
  have h1: "(1::int) \<noteq> 0" and h2: "''cat'' \<noteq> []" and h3: "length ''cat'' \<le> 50"
    by simp_all
  have h4: "find (\<lambda>l. l_name l = ''cat'') (labels (db one_image_server)) =
      Some \<lparr>l_id = 1, l_name = ''cat''\<rparr>"
    by (simp add: one_image_server_eq)
  have h5: "post_api_annotations one_image_server (Num 1) ''cat'' =
     (tagged_server, Response 200 (Json_success ''Label added (or already linked to the image)!''))"
    by (simp add: tagged_server_eq one_image_server_eq post_api_annotations_def select_label_id_def
      insert_or_ignore_annotation_def fk_violation_def)
  have h6: "post_api_annotations tagged_server (Num 1) ''cat'' =
     (tagged_server, Response 200 (Json_success ''Label added (or already linked to the image)!''))"
    by (simp add: tagged_server_eq one_image_server_eq post_api_annotations_def select_label_id_def
      insert_or_ignore_annotation_def fk_violation_def)
  from attach_existing_label_twice [OF reachable_one_image h1 h2 h3 h4 h5 h6]
    reachable_one_image h4 h5 h6
  show ?thesis by simp
qed

section \<open>Every schedule lets both requests respond\<close>

lemma attach_step_left:
  "attach_step s t = (s', t') \<Longrightarrow> steps_left t' \<le> steps_left t - 1"
  by (cases t) (auto split: sum.splits option.splits prod.splits)

lemma interleave_left:
  assumes "interleave sched (s, t1, t2) = (s', t1', t2')"
  shows "steps_left t1' \<le> steps_left t1 - length (filter (\<lambda>b. b) sched) \<and>
         steps_left t2' \<le> steps_left t2 - length (filter (\<lambda>b. \<not> b) sched)"
  using assms
proof (induction sched arbitrary: s t1 t2)
  case Nil
  then show ?case by simp
next
  case (Cons b bs)
  show ?case
  proof (cases b)
    case True
    obtain u v where st: "attach_step s t1 = (u, v)" by (cases "attach_step s t1")
    from Cons.prems True st have "interleave bs (u, v, t2) = (s', t1', t2')" by simp
    from Cons.IH [OF this] attach_step_left [OF st] True show ?thesis by simp arith
  next
    case False
    obtain u v where st: "attach_step s t2 = (u, v)" by (cases "attach_step s t2")
    from Cons.prems False st have "interleave bs (u, t1, v) = (s', t1', t2')" by simp
    from Cons.IH [OF this] attach_step_left [OF st] False show ?thesis by simp arith
  qed
qed

lemma steps_left_0: "steps_left t = 0 \<Longrightarrow> \<exists>r. t = Responded r"
  by (cases t) simp_all

lemma steps_left_le_3: "steps_left t \<le> 3"
  by (cases t) simp_all

text \<open>A schedule that gives each request three turns brings both to their responses.\<close>

lemma interleave_completes:
  assumes "3 \<le> length (filter (\<lambda>b. b) sched)" and "3 \<le> length (filter (\<lambda>b. \<not> b) sched)"
  shows "\<exists>s' r1 r2. interleave sched (s, t1, t2) = (s', Responded r1, Responded r2)"
proof -
  obtain s' t1' t2' where run: "interleave sched (s, t1, t2) = (s', t1', t2')"
    by (cases "interleave sched (s, t1, t2)")
  from interleave_left [OF run] assms steps_left_le_3 [of t1] steps_left_le_3 [of t2]
  have "steps_left t1' = 0" and "steps_left t2' = 0" by simp_all
  then obtain r1 r2 where "t1' = Responded r1" and "t2' = Responded r2"
    using steps_left_0 by blast
  with run show ?thesis by simp
qed

text \<open>
  When both lookups run before either insert, the request that inserts second is answered
  with the store's uniqueness error and links nothing; one row bears the name all the same.
\<close>

lemma race_loser_gets_store_error:
  "interleave [True, False, True, False, True]
     (two_image_server, attach_start (Num 1) ''bird'', attach_start (Num 2) ''bird'') =
     (two_image_server\<lparr>db := (db two_image_server)
        \<lparr>labels := [\<lparr>l_id = 1, l_name = ''cat''\<rparr>, \<lparr>l_id = 2, l_name = ''dog''\<rparr>,
                    \<lparr>l_id = 3, l_name = ''car''\<rparr>, \<lparr>l_id = 4, l_name = ''bird''\<rparr>],
          labels_seq := 4,
          annotations := [\<lparr>a_image_id = 1, a_label_id = 4\<rparr>]\<rparr>\<rparr>,
      Responded (Response 200 (Json_success ''New label created and linked to the image!'')),
      Responded (Response 400
        (Json_error ''SQLITE_CONSTRAINT: UNIQUE constraint failed: labels.name'')))"
  by (simp add: attach_start_def two_image_server_eq one_image_server_eq select_label_id_def
      insert_label_def insert_annotation_def fk_violation_def)

section \<open>Attaching one new label to two images\<close>

lemma find_append_new:
  "find P xs = None \<Longrightarrow> P x \<Longrightarrow> find P (xs @ [x]) = Some x"
  by (induction xs) (auto split: if_splits)

text \<open>
  In a reachable state, let two \<^verbatim>\<open>POST /api/annotations\<close> requests carry accepted
  image ids and the same accepted label name, which no stored label bears. Run one after
  the other, the first is answered "New label created" and appends the label row, the
  second is answered "Label added" and leaves the \<^verbatim>\<open>labels\<close> table as the first left it: exactly
  one row bears the name, and both images are linked to its id. Run under any interleaving
  of their statements, once both requests have responded exactly one label row bears the
  name.
\<close>

lemma attach_new_label_twice:
  assumes "reachable s"
    and "image_id1 \<noteq> 0" and "image_id2 \<noteq> 0"
    and "labelName \<noteq> []" and "length labelName \<le> 50"
    and "labelName \<notin> set (map l_name (labels (db s)))"
    and "post_api_annotations s (Num image_id1) labelName = (s1, r1)"
    and "post_api_annotations s1 (Num image_id2) labelName = (s2, r2)"
  shows "r1 = Response 200 (Json_success ''New label created and linked to the image!'') \<and>
         r2 = Response 200 (Json_success ''Label added (or already linked to the image)!'') \<and>
         labels (db s1) = labels (db s) @ [\<lparr>l_id = labels_seq (db s) + 1, l_name = labelName\<rparr>] \<and>
         labels (db s2) = labels (db s1) \<and>
         filter (\<lambda>l. l_name l = labelName) (labels (db s2)) =
           [\<lparr>l_id = labels_seq (db s) + 1, l_name = labelName\<rparr>] \<and>
         \<lparr>a_image_id = image_id1, a_label_id = labels_seq (db s) + 1\<rparr> \<in> set (annotations (db s2)) \<and>
         \<lparr>a_image_id = image_id2, a_label_id = labels_seq (db s) + 1\<rparr> \<in> set (annotations (db s2)) \<and>
         (\<forall>sched s' r1' r2'.
            interleave sched (s, attach_start (Num image_id1) labelName,
              attach_start (Num image_id2) labelName) = (s', Responded r1', Responded r2') \<longrightarrow>
            length (filter (\<lambda>l. l_name l = labelName) (labels (db s'))) = 1)"
proof -
  let ?new = "\<lparr>l_id = labels_seq (db s) + 1, l_name = labelName\<rparr>"
  let ?a1 = "\<lparr>a_image_id = image_id1, a_label_id = labels_seq (db s) + 1\<rparr>"
  let ?a2 = "\<lparr>a_image_id = image_id2, a_label_id = labels_seq (db s) + 1\<rparr>"
  from assms(1) have inv: "store_inv (db s)" by (rule reachable_store_inv)
  then have fk: "\<not> foreign_keys (db s)" by (simp add: store_inv_def)
  have none: "find (\<lambda>l. l_name l = labelName) (labels (db s)) = None"
    using assms(6) by (auto simp: find_None_iff)
  have old: "filter (\<lambda>l. l_name l = labelName) (labels (db s)) = []"
    using assms(6) by (auto simp: filter_empty_conv)
  have fresh: "?a1 \<notin> set (annotations (db s))"
  proof
    assume "?a1 \<in> set (annotations (db s))"
    with inv have "labels_seq (db s) + 1 \<in> set (map l_id (labels (db s)))"
      by (force simp: store_inv_def list_all_iff)
    with inv have "labels_seq (db s) + 1 \<le> labels_seq (db s)"
      by (force simp: store_inv_def list_all_iff)
    then show False by simp
  qed
  have first: "post_api_annotations s (Num image_id1) labelName =
      (s\<lparr>db := (db s)\<lparr>labels := labels (db s) @ [?new], labels_seq := labels_seq (db s) + 1,
                        annotations := annotations (db s) @ [?a1]\<rparr>\<rparr>,
       Response 200 (Json_success ''New label created and linked to the image!''))"
    using assms(2,4,5,6) none fk fresh
    by (simp add: post_api_annotations_def select_label_id_def insert_label_def
        insert_annotation_def fk_violation_def)
  with assms(7) have s1: "s1 = s\<lparr>db := (db s)\<lparr>labels := labels (db s) @ [?new],
        labels_seq := labels_seq (db s) + 1, annotations := annotations (db s) @ [?a1]\<rparr>\<rparr>"
    and r1: "r1 = Response 200 (Json_success ''New label created and linked to the image!'')"
    by simp_all
  have found: "find (\<lambda>l. l_name l = labelName) (labels (db s1)) = Some ?new"
    using find_append_new [OF none, of ?new] by (simp add: s1)
  have fk1: "\<not> fk_violation (db s1) image_id2 (labels_seq (db s) + 1)"
    using fk by (simp add: s1 fk_violation_def)
  have second: "post_api_annotations s1 (Num image_id2) labelName =
      (s1\<lparr>db := (db s1)\<lparr>annotations :=
            (if ?a2 \<in> set (annotations (db s1)) then annotations (db s1)
             else annotations (db s1) @ [?a2])\<rparr>\<rparr>,
       Response 200 (Json_success ''Label added (or already linked to the image)!''))"
    using assms(3,4,5) found fk1
    by (simp add: post_api_annotations_def select_label_id_def insert_or_ignore_annotation_def)
  with assms(8) have s2: "s2 = s1\<lparr>db := (db s1)\<lparr>annotations :=
            (if ?a2 \<in> set (annotations (db s1)) then annotations (db s1)
             else annotations (db s1) @ [?a2])\<rparr>\<rparr>"
    and r2: "r2 = Response 200 (Json_success ''Label added (or already linked to the image)!'')"
    by simp_all
  have l1: "labels (db s1) = labels (db s) @ [?new]" by (simp add: s1)
  have l2: "labels (db s2) = labels (db s1)" by (simp add: s2)
  have one: "filter (\<lambda>l. l_name l = labelName) (labels (db s2)) = [?new]"
    by (simp add: l2 l1 old)
  have a1: "?a1 \<in> set (annotations (db s2))" by (simp add: s2 s1)
  have a2: "?a2 \<in> set (annotations (db s2))" by (simp add: s2)
  have conc: "\<forall>sched s' r1' r2'.
            interleave sched (s, attach_start (Num image_id1) labelName,
              attach_start (Num image_id2) labelName) = (s', Responded r1', Responded r2') \<longrightarrow>
            length (filter (\<lambda>l. l_name l = labelName) (labels (db s'))) = 1"
    using interleaved_attach_one_label [OF assms(6,2,3,4,5)] by blast
  from r1 r2 l1 l2 one a1 a2 conc show ?thesis by blast
qed

lemma attach_new_label_twice_at_two_images:
  "reachable two_image_server \<and>
   ''bird'' \<notin> set (map l_name (labels (db two_image_server))) \<and>
   snd (post_api_annotations two_image_server (Num 1) ''bird'') =
     Response 200 (Json_success ''New label created and linked to the image!'') \<and>
   snd (post_api_annotations (fst (post_api_annotations two_image_server (Num 1) ''bird''))
          (Num 2) ''bird'') =
     Response 200 (Json_success ''Label added (or already linked to the image)!'') \<and>
   filter (\<lambda>l. l_name l = ''bird'')
     (labels (db (fst (post_api_annotations
        (fst (post_api_annotations two_image_server (Num 1) ''bird'')) (Num 2) ''bird'')))) =
     [\<lparr>l_id = 4, l_name = ''bird''\<rparr>] \<and>
   length (filter (\<lambda>l. l_name l = ''bird'')
     (labels (db (fst (interleave [True, False, True, False, True]
        (two_image_server, attach_start (Num 1) ''bird'', attach_start (Num 2) ''bird'')))))) = 1"
proof -
  have h1: "(1::int) \<noteq> 0" and h2: "(2::int) \<noteq> 0" and h3: "''bird'' \<noteq> []"
    and h4: "length ''bird'' \<le> 50"
    by simp_all
  have h5: "''bird'' \<notin> set (map l_name (labels (db two_image_server)))"
    by (simp add: two_image_server_eq one_image_server_eq)
  have seq: "labels_seq (db two_image_server) + 1 = 4"
    by (simp add: two_image_server_eq one_image_server_eq)
  note both = attach_new_label_twice [OF reachable_two_image h1 h2 h3 h4 h5
      surjective_pairing surjective_pairing, unfolded seq]
  from both have "\<And>sched s' r1' r2'.
      interleave sched (two_image_server, attach_start (Num 1) ''bird'',
        attach_start (Num 2) ''bird'') = (s', Responded r1', Responded r2') \<Longrightarrow>
      length (filter (\<lambda>l. l_name l = ''bird'') (labels (db s'))) = 1"
    by blast
  from this [OF race_loser_gets_store_error]
  have raced: "length (filter (\<lambda>l. l_name l = ''bird'')
     (labels (db (fst (interleave [True, False, True, False, True]
        (two_image_server, attach_start (Num 1) ''bird'', attach_start (Num 2) ''bird'')))))) = 1"
    by (simp only: race_loser_gets_store_error fst_conv)
  from both reachable_two_image h5 raced show ?thesis
    by blast
qed

section \<open>Two racing requests for one new label\<close>

text \<open>
  Claim C3, at the input where the code departs from it. Images 1 and 2 are stored and no
  label is named \<^verbatim>\<open>bird\<close>. Two accepted requests attach \<^verbatim>\<open>bird\<close>, one to image 1 and one to
  image 2, and both lookups run before either insert. The first request creates label 4
  and links image 1. The second is answered 400 with the store's uniqueness error and
  links nothing: no annotation of image 2 is stored. Run one after the other from the same
  state, the second request is answered 200.
\<close>

theorem racing_attach_second_unlinked:
  "reachable two_image_server \<and>
   map i_id (images (db two_image_server)) = [1, 2] \<and>
   named ''bird'' two_image_server = [] \<and>
   attach_start (Num 1) ''bird'' = Select_label 1 ''bird'' \<and>
   attach_start (Num 2) ''bird'' = Select_label 2 ''bird'' \<and>
   interleave [True, False, True, False, True]
     (two_image_server, attach_start (Num 1) ''bird'', attach_start (Num 2) ''bird'') =
     (two_image_server\<lparr>db := (db two_image_server)
        \<lparr>labels := [\<lparr>l_id = 1, l_name = ''cat''\<rparr>, \<lparr>l_id = 2, l_name = ''dog''\<rparr>,
                    \<lparr>l_id = 3, l_name = ''car''\<rparr>, \<lparr>l_id = 4, l_name = ''bird''\<rparr>],
          labels_seq := 4,
          annotations := [\<lparr>a_image_id = 1, a_label_id = 4\<rparr>]\<rparr>\<rparr>,
      Responded (Response 200 (Json_success ''New label created and linked to the image!'')),
      Responded (Response 400
        (Json_error ''SQLITE_CONSTRAINT: UNIQUE constraint failed: labels.name''))) \<and>
   filter (\<lambda>a. a_image_id a = 2)
     (annotations (db (fst (interleave [True, False, True, False, True]
        (two_image_server, attach_start (Num 1) ''bird'', attach_start (Num 2) ''bird''))))) = [] \<and>
   snd (post_api_annotations (fst (post_api_annotations two_image_server (Num 1) ''bird''))
          (Num 2) ''bird'') =
     Response 200 (Json_success ''Label added (or already linked to the image)!'')"
proof -
  have a: "map i_id (images (db two_image_server)) = [1, 2]"
    and b: "named ''bird'' two_image_server = []"
    by (simp_all add: two_image_server_eq one_image_server_eq named_def)
  have c: "attach_start (Num 1) ''bird'' = Select_label 1 ''bird''"
    and d: "attach_start (Num 2) ''bird'' = Select_label 2 ''bird''"
    by (simp_all add: attach_start_def)
  note e = race_loser_gets_store_error
  have f: "filter (\<lambda>a. a_image_id a = 2)
     (annotations (db (fst (interleave [True, False, True, False, True]
        (two_image_server, attach_start (Num 1) ''bird'', attach_start (Num 2) ''bird''))))) = []"
    by (simp only: e fst_conv) simp
  have g: "snd (post_api_annotations (fst (post_api_annotations two_image_server (Num 1) ''bird''))
          (Num 2) ''bird'') =
     Response 200 (Json_success ''Label added (or already linked to the image)!'')"
    by (simp add: two_image_server_eq one_image_server_eq post_api_annotations_def
        select_label_id_def insert_label_def insert_annotation_def
        insert_or_ignore_annotation_def fk_violation_def)
  from reachable_two_image a b c d e f g show ?thesis by blast
qed

section \<open>Detaching a label\<close>

text \<open>
  Claim C9, as the code has it. \<^verbatim>\<open>DELETE /api/annotations\<close> with an id that is \<^verbatim>\<open>0\<close> or
  \<^verbatim>\<open>NaN\<close>, in either position and in every state, is answered 400 with the validation error
  and changes nothing. With two numeric ids other than \<^verbatim>\<open>0\<close> it is answered 200 and leaves
  the \<^verbatim>\<open>annotations\<close> table without the rows that match both ids; a second request with the
  same ids is answered 200 again and changes nothing; when no row holds the pair the first
  request changes nothing either.
\<close>

theorem detach_label_outcomes:
  "(falsy imageId \<or> falsy labelId \<longrightarrow>
      delete_api_annotations s imageId labelId =
        (s, Response 400 (Json_error ''Valid Image ID and Label ID (numbers) are required!''))) \<and>
   (image_id \<noteq> 0 \<and> label_id \<noteq> 0 \<longrightarrow>
      delete_api_annotations s (Num image_id) (Num label_id) =
        (s\<lparr>db := (db s)\<lparr>annotations :=
              filter (\<lambda>a. \<not> (a_image_id a = image_id \<and> a_label_id a = label_id))
                (annotations (db s))\<rparr>\<rparr>,
         Response 200 (Json_success ''Label removed from the image successfully!'')) \<and>
      delete_api_annotations (fst (delete_api_annotations s (Num image_id) (Num label_id)))
          (Num image_id) (Num label_id) =
        (fst (delete_api_annotations s (Num image_id) (Num label_id)),
         Response 200 (Json_success ''Label removed from the image successfully!'')) \<and>
      (\<lparr>a_image_id = image_id, a_label_id = label_id\<rparr> \<notin> set (annotations (db s)) \<longrightarrow>
         fst (delete_api_annotations s (Num image_id) (Num label_id)) = s))"
proof -
  let ?keep = "\<lambda>a. \<not> (a_image_id a = image_id \<and> a_label_id a = label_id)"
  have refused: "delete_api_annotations s imageId labelId =
        (s, Response 400 (Json_error ''Valid Image ID and Label ID (numbers) are required!''))"
    if "falsy imageId \<or> falsy labelId"
    using that by (auto simp: delete_api_annotations_def)
  have run: "\<And>t. delete_api_annotations t (Num image_id) (Num label_id) =
      (t\<lparr>db := (db t)\<lparr>annotations := filter ?keep (annotations (db t))\<rparr>\<rparr>,
       Response 200 (Json_success ''Label removed from the image successfully!''))"
    if "image_id \<noteq> 0 \<and> label_id \<noteq> 0"
    using that by (simp add: delete_api_annotations_def delete_annotation_def)
  have absent: "filter ?keep (annotations (db s)) = annotations (db s)"
    if "\<lparr>a_image_id = image_id, a_label_id = label_id\<rparr> \<notin> set (annotations (db s))"
  proof -
    have "\<forall>a \<in> set (annotations (db s)). ?keep a"
    proof
      fix a assume a: "a \<in> set (annotations (db s))"
      show "?keep a"
      proof
        assume "a_image_id a = image_id \<and> a_label_id a = label_id"
        then have "a = \<lparr>a_image_id = image_id, a_label_id = label_id\<rparr>" by simp
        with a that show False by simp
      qed
    qed
    then show ?thesis by (simp add: filter_id_conv)
  qed
  have third: "fst (delete_api_annotations s (Num image_id) (Num label_id)) = s"
    if ok: "image_id \<noteq> 0 \<and> label_id \<noteq> 0"
      and h: "\<lparr>a_image_id = image_id, a_label_id = label_id\<rparr> \<notin> set (annotations (db s))"
  proof -
    have "fst (delete_api_annotations s (Num image_id) (Num label_id)) =
        s\<lparr>db := (db s)\<lparr>annotations := filter ?keep (annotations (db s))\<rparr>\<rparr>"
      by (simp only: run [OF ok] fst_conv)
    also have "\<dots> = s\<lparr>db := (db s)\<lparr>annotations := annotations (db s)\<rparr>\<rparr>"
      by (simp only: absent [OF h])
    also have "\<dots> = s" by simp
    finally show ?thesis .
  qed
  have second: "delete_api_annotations (fst (delete_api_annotations s (Num image_id) (Num label_id)))
             (Num image_id) (Num label_id) =
           (fst (delete_api_annotations s (Num image_id) (Num label_id)),
            Response 200 (Json_success ''Label removed from the image successfully!''))"
    if ok: "image_id \<noteq> 0 \<and> label_id \<noteq> 0"
    by (simp add: run [OF ok])
  from refused run [of s] second third show ?thesis
    by blast
qed

theorem detach_label_outcomes_witness:
  "delete_api_annotations tagged_server (Num 1) (Num 1) =
     (one_image_server, Response 200 (Json_success ''Label removed from the image successfully!'')) \<and>
   delete_api_annotations one_image_server (Num 1) (Num 1) =
     (one_image_server, Response 200 (Json_success ''Label removed from the image successfully!'')) \<and>
   delete_api_annotations tagged_server (Num 1) (Num 0) =
     (tagged_server,
      Response 400 (Json_error ''Valid Image ID and Label ID (numbers) are required!'')) \<and>
   delete_api_annotations tagged_server NaN (Num 1) =
     (tagged_server,
      Response 400 (Json_error ''Valid Image ID and Label ID (numbers) are required!''))"
proof -
  note both = detach_label_outcomes [of "Num 1" "Num 1" tagged_server 1 1]
  have restored: "tagged_server\<lparr>db := (db tagged_server)\<lparr>annotations :=
      filter (\<lambda>a. \<not> (a_image_id a = 1 \<and> a_label_id a = 1))
        (annotations (db tagged_server))\<rparr>\<rparr> = one_image_server"
    by (simp add: tagged_server_eq one_image_server_eq)
  from both have "delete_api_annotations tagged_server (Num 1) (Num 1) =
      (tagged_server\<lparr>db := (db tagged_server)\<lparr>annotations :=
          filter (\<lambda>a. \<not> (a_image_id a = 1 \<and> a_label_id a = 1))
            (annotations (db tagged_server))\<rparr>\<rparr>,
       Response 200 (Json_success ''Label removed from the image successfully!''))"
    by simp
  then have first: "delete_api_annotations tagged_server (Num 1) (Num 1) =
      (one_image_server, Response 200 (Json_success ''Label removed from the image successfully!''))"
    by (simp only: restored)
  from both have again: "delete_api_annotations one_image_server (Num 1) (Num 1) =
     (one_image_server, Response 200 (Json_success ''Label removed from the image successfully!''))"
    by (simp add: first)
  from detach_label_outcomes [of "Num 1" "Num 0" tagged_server 1 1]
  have zero: "delete_api_annotations tagged_server (Num 1) (Num 0) =
     (tagged_server,
      Response 400 (Json_error ''Valid Image ID and Label ID (numbers) are required!''))"
    by simp
  from detach_label_outcomes [of NaN "Num 1" tagged_server 1 1]
  have nan: "delete_api_annotations tagged_server NaN (Num 1) =
     (tagged_server,
      Response 400 (Json_error ''Valid Image ID and Label ID (numbers) are required!''))"
    by simp
  from first again zero nan show ?thesis by blast
qed

text \<open>
  The claim as the specification words it fails for the numeric id \<^verbatim>\<open>0\<close>: the request is
  refused with the validation error and status 400.
\<close>

theorem detach_zero_id_counterexample:
  "delete_api_annotations one_image_server (Num 0) (Num 1) =
     (one_image_server,
      Response 400 (Json_error ''Valid Image ID and Label ID (numbers) are required!'')) \<and>
   snd (delete_api_annotations one_image_server (Num 0) (Num 1)) \<noteq>
     Response 200 (Json_success ''Label removed from the image successfully!'')"
  by (simp add: delete_api_annotations_def)

section \<open>Listing the images\<close>

text \<open>
  Claim C6, at the input where the code departs from it. Image 1 carries the one label
  \<^verbatim>\<open>x, y\<close>, whose id is 4. The listing returns \<^verbatim>\<open>labels = "x, y"\<close> and \<^verbatim>\<open>labelIds = "4"\<close>;
  split on \<^verbatim>\<open>', '\<close> the first has two elements and the second one, so the grid shows
  the tags \<^verbatim>\<open>x\<close>, with the id 4, and \<^verbatim>\<open>y\<close>, with no id, and no stored label bears either
  name.
\<close>

theorem listing_splits_name_with_separator:
  "snd (get_api_images comma_server) =
     Response 200 (Json_rows
       [\<lparr>r_id = 1, r_filename = ''image-5.jpg'', r_file_path = ''/srv/uploads/image-5.jpg'',
         r_labels = Some ''x, y'', r_labelIds = Some ''4''\<rparr>]) \<and>
   split_on '', '' ''x, y'' = [''x'', ''y''] \<and>
   split_on '', '' ''4'' = [''4''] \<and>
   label_tags \<lparr>r_id = 1, r_filename = ''image-5.jpg'', r_file_path = ''/srv/uploads/image-5.jpg'',
               r_labels = Some ''x, y'', r_labelIds = Some ''4''\<rparr> =
     [(''x'', Some ''4''), (''y'', None)] \<and>
   named ''x'' comma_server = [] \<and> named ''y'' comma_server = []"
  by (simp add: get_api_images_def select_images_with_labels_def comma_server_eq one_image_server_eq
      joined_labels_def group_concat_def show_int_4 split_on_def label_tags_def split_field_def
      named_def)

section \<open>Uploading an image\<close>

text \<open>
  Claim C7, at the input where the code departs from it. Two uploads that pass the filter,
  \<^verbatim>\<open>cat.jpg\<close> and \<^verbatim>\<open>dog.jpg\<close>, arrive while \<^verbatim>\<open>Date.now()\<close> is 5. Both get the name
  \<^verbatim>\<open>image-5.jpg\<close>. The first is stored as image 1; the second replaces the file of image 1
  on disk with its own contents and is then refused by the store with status 400.
\<close>

theorem same_millisecond_uploads_collide:
  "fileFilter cat_jpg \<and> fileFilter dog_jpg \<and>
   filename 5 cat_jpg = filename 5 dog_jpg \<and>
   post_api_images fresh_server 5 (Some cat_jpg) =
     (one_image_server, Response 201 (Json_created 1 ''image-5.jpg'')) \<and>
   post_api_images one_image_server 5 (Some dog_jpg) =
     (one_image_server\<lparr>files := [''/srv/uploads/image-5.jpg'' \<mapsto> ''BBBB'']\<rparr>,
      Response 400 (Json_error ''SQLITE_CONSTRAINT: UNIQUE constraint failed: images.filename''))"
proof -
  have a: "fileFilter cat_jpg \<and> fileFilter dog_jpg"
    by (simp add: fileFilter_def cat_jpg_def dog_jpg_def)
  have b: "post_api_images fresh_server 5 (Some cat_jpg) =
     (one_image_server, Response 201 (Json_created 1 ''image-5.jpg''))"
    by (simp add: one_image_server_eq fresh_server_eq post_api_images_def db_init_eq
      filename_cat a insert_image_def path_join_def Let_def)
      (simp add: cat_jpg_def)
  have c: "post_api_images one_image_server 5 (Some dog_jpg) =
     (one_image_server\<lparr>files := [''/srv/uploads/image-5.jpg'' \<mapsto> ''BBBB'']\<rparr>,
      Response 400 (Json_error ''SQLITE_CONSTRAINT: UNIQUE constraint failed: images.filename''))"
    by (simp add: one_image_server_eq post_api_images_def
      filename_dog a insert_image_def path_join_def Let_def)
      (simp add: dog_jpg_def)
  from a b c show ?thesis by (simp add: filename_cat filename_dog)
qed

section \<open>Where the listing and the grid agree\<close>

text \<open>
  Apart from label names that hold the separator, the listing does what C6 says: it has one
  row per image, both aggregates of an image without annotations are \<^verbatim>\<open>NULL\<close>, and when no
  stored label name holds \<^verbatim>\<open>', '\<close> the two split arrays are the names and the ids of the same
  joined label rows, position by position.
\<close>

text \<open>Attached as \<^verbatim>\<open>dog\<close> then \<^verbatim>\<open>cat\<close>, the labels of image 1 are listed by label id.\<close>

lemma dog_then_cat_server_eq:
  "dog_then_cat_server =
     one_image_server\<lparr>db := (db one_image_server)
        \<lparr>annotations := [\<lparr>a_image_id = 1, a_label_id = 2\<rparr>, \<lparr>a_image_id = 1, a_label_id = 1\<rparr>]\<rparr>\<rparr>"
  by (simp add: dog_then_cat_server_def one_image_server_eq post_api_annotations_def
      select_label_id_def insert_or_ignore_annotation_def fk_violation_def)

lemma show_int_1_2: "show_int 1 = ''1'' \<and> show_int 2 = ''2''"
  by (simp add: show_int_def digits_of_small digit_char_def)

lemma listing_in_label_id_order:
  "snd (get_api_images dog_then_cat_server) =
     Response 200 (Json_rows
       [\<lparr>r_id = 1, r_filename = ''image-5.jpg'', r_file_path = ''/srv/uploads/image-5.jpg'',
         r_labels = Some ''cat, dog'', r_labelIds = Some ''1, 2''\<rparr>])"
  by (simp add: get_api_images_def select_images_with_labels_def dog_then_cat_server_eq
      one_image_server_eq joined_labels_def group_concat_def show_int_1_2)

lemma split_from_piece:
  "no_delim x \<Longrightarrow>
   split_from '', '' acc (x @ '', '' @ rest) = (acc @ x) # split_from '', '' [] rest"
proof (induction x arbitrary: acc rule: no_delim.induct)
  case (1 a b cs)
  then show ?case by auto
qed simp_all

lemma split_from_last: "no_delim x \<Longrightarrow> split_from '', '' acc x = [acc @ x]"
proof (induction x arbitrary: acc rule: no_delim.induct)
  case (1 a b cs)
  then show ?case by auto
qed simp_all

lemma split_join:
  "xs \<noteq> [] \<Longrightarrow> list_all no_delim xs \<Longrightarrow> split_on '', '' (join_with '', '' xs) = xs"
proof (induction "'', ''" xs rule: join_with.induct)
  case 1
  then show ?case by simp
next
  case (2 x)
  then show ?case by (simp add: split_on_def split_from_last)
next
  case (3 x y ys)
  from 3 have "split_from '', '' [] (join_with '', '' (y # ys)) = y # ys"
    by (simp add: split_on_def)
  with 3 show ?case
    using split_from_piece [of x "[]" "join_with '', '' (y # ys)"]
    by (simp add: split_on_def)
qed

lemma join_with_nonempty:
  "xs \<noteq> [] \<Longrightarrow> list_all (\<lambda>x. x \<noteq> []) xs \<Longrightarrow> join_with sep xs \<noteq> []"
  by (induction sep xs rule: join_with.induct) auto

lemma non_null_map: "non_null (map (map_option f) vs) = map f (non_null vs)"
  by (induction vs rule: non_null.induct) auto

lemma split_field_group_concat:
  assumes "list_all no_delim (map f (non_null vs))"
    and "list_all (\<lambda>x. x \<noteq> []) (map f (non_null vs))"
  shows "split_field (group_concat '', '' (map (map_option f) vs)) = map f (non_null vs)"
proof (cases "non_null vs")
  case Nil
  then show ?thesis by (simp add: split_field_def group_concat_def non_null_map)
next
  case (Cons x xs)
  let ?ys = "map f (non_null vs)"
  from Cons have ne: "?ys \<noteq> []" by simp
  from join_with_nonempty [OF ne assms(2)] split_join [OF ne assms(1)] Cons
  show ?thesis
    by (simp add: split_field_def group_concat_def non_null_map)
qed

lemma digit_char_cases: "digit_char n \<in> set ''0123456789''"
proof -
  have "n mod 10 < length ''0123456789''" by simp
  then show ?thesis unfolding digit_char_def by (rule nth_mem)
qed

lemma digits_of_chars: "set (digits_of n) \<subseteq> set ''0123456789''"
proof (induction n rule: digits_of.induct)
  case (1 n)
  show ?case
  proof (cases "n < 10")
    case True
    with digit_char_cases [of n] show ?thesis
      by (subst digits_of.simps) simp
  next
    case False
    with 1 digit_char_cases [of n] show ?thesis
      by (subst digits_of.simps) simp
  qed
qed

lemma digits_of_nonempty: "digits_of n \<noteq> []"
  by (subst digits_of.simps) simp

lemma no_delim_no_space: "CHR '' '' \<notin> set cs \<Longrightarrow> no_delim cs"
  by (induction cs rule: no_delim.induct) auto

lemma show_int_plain: "no_delim (show_int i) \<and> show_int i \<noteq> []"
proof -
  have "CHR '' '' \<notin> set (digits_of n)" for n
    using digits_of_chars [of n] by auto
  then show ?thesis
    by (auto simp: show_int_def digits_of_nonempty intro!: no_delim_no_space)
qed

lemma non_null_joined_labels: "set (non_null (joined_labels d i)) \<subseteq> set (labels d)"
proof -
  have inner: "set (non_null (concat (map (\<lambda>a. case filter (\<lambda>l. l_id l = a_label_id a) (labels d) of
                              [] \<Rightarrow> [None]
                            | l # ls \<Rightarrow> map Some (l # ls)) as))) \<subseteq> set (labels d)" for as
  proof (induction as)
    case Nil
    show ?case by simp
  next
    case (Cons a as)
    have nn: "non_null (xs @ ys) = non_null xs @ non_null ys" for xs ys :: "label_row option list"
      by (induction xs rule: non_null.induct) auto
    have ms: "non_null (map Some xs) = xs" for xs :: "label_row list"
      by (induction xs) auto
    have "set (filter (\<lambda>l. l_id l = a_label_id a) (labels d)) \<subseteq> set (labels d)" by auto
    with Cons show ?case
      by (cases "filter (\<lambda>l. l_id l = a_label_id a) (labels d)") (auto simp: nn ms)
  qed
  show ?thesis
  proof (cases "sort_key a_label_id (filter (\<lambda>a. a_image_id a = i_id i) (annotations d))")
    case Nil
    then show ?thesis by (simp add: joined_labels_def)
  next
    case (Cons a as)
    show ?thesis
      unfolding joined_labels_def Cons list.case by (rule inner)
  qed
qed

lemma listing_one_row_per_image:
  "select_images_with_labels d = Inr rows \<Longrightarrow> map r_id rows = map i_id (images d)"
  by (auto simp: select_images_with_labels_def)

lemma listing_unlabelled_image:
  assumes "select_images_with_labels d = Inr rows" and "n < length (images d)"
    and "filter (\<lambda>a. a_image_id a = i_id (images d ! n)) (annotations d) = []"
  shows "r_labels (rows ! n) = None \<and> r_labelIds (rows ! n) = None"
  using assms
  by (auto simp: select_images_with_labels_def joined_labels_def group_concat_def)

lemma listing_aligned_without_separator:
  assumes "list_all (\<lambda>l. l_name l \<noteq> [] \<and> no_delim (l_name l)) (labels d)"
    and "select_images_with_labels d = Inr rows" and "n < length (images d)"
  shows "split_field (r_labels (rows ! n)) =
           map l_name (non_null (joined_labels d (images d ! n))) \<and>
         split_field (r_labelIds (rows ! n)) =
           map (\<lambda>l. show_int (l_id l)) (non_null (joined_labels d (images d ! n)))"
proof -
  let ?ls = "non_null (joined_labels d (images d ! n))"
  from non_null_joined_labels [of d "images d ! n"] assms(1)
  have names: "list_all no_delim (map l_name ?ls)"
    and names_ne: "list_all (\<lambda>x. x \<noteq> []) (map l_name ?ls)"
    by (auto simp: list_all_iff)
  have ids: "list_all no_delim (map (\<lambda>l. show_int (l_id l)) ?ls)"
    and ids_ne: "list_all (\<lambda>x. x \<noteq> []) (map (\<lambda>l. show_int (l_id l)) ?ls)"
    using show_int_plain by (simp_all add: list_all_iff)
  from assms(2,3) have row: "rows ! n =
      \<lparr>r_id = i_id (images d ! n), r_filename = i_filename (images d ! n),
        r_file_path = i_file_path (images d ! n),
        r_labels = group_concat '', '' (map (map_option l_name) (joined_labels d (images d ! n))),
        r_labelIds = group_concat '', ''
          (map (map_option (\<lambda>l. show_int (l_id l))) (joined_labels d (images d ! n)))\<rparr>"
    by (auto simp: select_images_with_labels_def)
  show ?thesis
    by (simp add: row split_field_group_concat [OF names names_ne]
        split_field_group_concat [OF ids ids_ne])
qed

lemma tags_parallel:
  "map (\<lambda>(index, label). (label, if index < length ls then Some (map g ls ! index) else None))
     (enumerate 0 (map f ls)) = map (\<lambda>l. (f l, Some (g l))) ls"
  by (auto simp: list_eq_iff_nth_eq nth_enumerate_eq)

lemma label_tags_aligned_without_separator:
  assumes "list_all (\<lambda>l. l_name l \<noteq> [] \<and> no_delim (l_name l)) (labels d)"
    and "select_images_with_labels d = Inr rows" and "n < length (images d)"
  shows "label_tags (rows ! n) =
           map (\<lambda>l. (l_name l, Some (show_int (l_id l))))
             (non_null (joined_labels d (images d ! n)))"
  using listing_aligned_without_separator [OF assms]
  by (simp add: label_tags_def Let_def tags_parallel)

lemma reachable_listing_aligned:
  assumes "reachable s"
    and "list_all (\<lambda>l. no_delim (l_name l)) (labels (db s))"
    and "select_images_with_labels (db s) = Inr rows" and "n < length (images (db s))"
  shows "label_tags (rows ! n) =
           map (\<lambda>l. (l_name l, Some (show_int (l_id l))))
             (non_null (joined_labels (db s) (images (db s) ! n)))"
proof -
  from reachable_store_inv [OF assms(1)] assms(2)
  have "list_all (\<lambda>l. l_name l \<noteq> [] \<and> no_delim (l_name l)) (labels (db s))"
    by (simp add: store_inv_def list_all_iff)
  from label_tags_aligned_without_separator [OF this assms(3,4)] show ?thesis .
qed

section \<open>When two generated names are equal\<close>

text \<open>
  The generated name determines the clock value and the extension, and nothing else of the
  upload: two uploads get the same name exactly when \<^verbatim>\<open>Date.now()\<close> and the extension agree.
\<close>

lemma digit_char_value: "of_char (digit_char n) - 48 = (n mod 10 :: nat)"
proof -
  define k where "k = n mod 10"
  then have "k < 10" by simp
  then have "k = 0 \<or> k = 1 \<or> k = 2 \<or> k = 3 \<or> k = 4 \<or> k = 5 \<or> k = 6 \<or> k = 7 \<or> k = 8 \<or> k = 9"
    by arith
  then have "of_char (''0123456789'' ! k) - 48 = k"
    by (elim disjE) simp_all
  then show ?thesis by (simp add: digit_char_def k_def)
qed

lemma digits_value_digits_of: "digits_value (digits_of n) = n"
proof (induction n rule: digits_of.induct)
  case (1 n)
  show ?case
  proof (cases "n < 10")
    case True
    then show ?thesis
      by (subst digits_of.simps) (simp add: digits_value_def digit_char_value)
  next
    case False
    with 1 have "digits_value (digits_of (n div 10)) = n div 10" by simp
    with False show ?thesis
      by (subst digits_of.simps) (simp add: digits_value_def digit_char_value)
  qed
qed

lemma digits_of_inj: "digits_of n = digits_of m \<Longrightarrow> n = m"
  by (metis digits_value_digits_of)

lemma append_sep_eq_iff:
  "c \<notin> set xs \<Longrightarrow> c \<notin> set xs' \<Longrightarrow>
   xs @ c # ys = xs' @ c # ys' \<longleftrightarrow> xs = xs' \<and> ys = ys'"
proof (induction xs arbitrary: xs')
  case Nil
  then show ?case by (cases xs') auto
next
  case (Cons a xs)
  then show ?case by (cases xs') auto
qed

lemma filename_eq_iff:
  "filename now f = filename now' f' \<longleftrightarrow>
     now = now' \<and>
     last (split_on ''.'' (originalname f)) = last (split_on ''.'' (originalname f'))"
proof -
  have dot: "CHR ''.'' \<notin> set (digits_of n)" for n
    using digits_of_chars [of n] by auto
  show ?thesis
    using digits_of_inj [of now now']
    by (auto simp: filename_def Let_def append_sep_eq_iff [OF dot [of now] dot [of now']])
qed

end
